theory Spec2Isabelle
  imports Complex_Main
begin

section \<open>Python text operations used by the audit\<close>

text \<open>
  The program works on Python \<open>str\<close> values. They are modelled as \<open>string\<close>, one
  \<open>char\<close> per code point. A \<open>char\<close> holds a code point from 0 to 255, so the texts of
  the model are the Latin-1 texts, and the character classes below are those of Python
  (the Unicode database behind \<open>str.isupper\<close>, \<open>str.islower\<close>, \<open>str.lower\<close>,
  \<open>str.title\<close> and \<open>str.isspace\<close>) on these 256 code points. Text with a code point
  from 256 on is outside the model.
\<close>

text \<open>
  \<open>c.isupper()\<close>: \<open>A\<close> to \<open>Z\<close>, and the capital letters U+00C0 to U+00DE without the
  multiplication sign U+00D7.
\<close>

definition is_upper_c :: "char \<Rightarrow> bool" where
  "is_upper_c c \<longleftrightarrow>
     ((65::nat) \<le> of_char c \<and> of_char c \<le> (90::nat)) \<or>
     ((192::nat) \<le> of_char c \<and> of_char c \<le> (214::nat)) \<or>
     ((216::nat) \<le> of_char c \<and> of_char c \<le> (222::nat))"

text \<open>
  \<open>c.islower()\<close>: \<open>a\<close> to \<open>z\<close>, the ordinal indicators U+00AA and U+00BA, the micro
  sign U+00B5, and the small letters U+00DF to U+00FF without the division sign U+00F7.
\<close>

definition is_lower_c :: "char \<Rightarrow> bool" where
  "is_lower_c c \<longleftrightarrow>
     ((97::nat) \<le> of_char c \<and> of_char c \<le> (122::nat)) \<or>
     of_char c = (170::nat) \<or> of_char c = (181::nat) \<or> of_char c = (186::nat) \<or>
     ((223::nat) \<le> of_char c \<and> of_char c \<le> (246::nat)) \<or>
     ((248::nat) \<le> of_char c \<and> of_char c \<le> (255::nat))"

text \<open>A cased character is an uppercase or a lowercase one (Latin-1 has no titlecase letter).\<close>

definition is_cased_c :: "char \<Rightarrow> bool" where
  "is_cased_c c \<longleftrightarrow> is_upper_c c \<or> is_lower_c c"

text \<open>
  \<open>c.isspace()\<close>: TAB, LF, VT, FF, CR, FS, GS, RS, US, space, NEL (U+0085) and the
  no-break space (U+00A0).
\<close>

definition is_space_c :: "char \<Rightarrow> bool" where
  "is_space_c c \<longleftrightarrow>
     ((9::nat) \<le> of_char c \<and> of_char c \<le> (13::nat)) \<or>
     ((28::nat) \<le> of_char c \<and> of_char c \<le> (32::nat)) \<or>
     of_char c = (133::nat) \<or> of_char c = (160::nat)"

text \<open>\<open>c.lower()\<close>: an uppercase character moves 32 code points up, any other stays.\<close>

definition lower_c :: "char \<Rightarrow> char" where
  "lower_c c = (if is_upper_c c then char_of (of_char c + (32::nat)) else c)"

text \<open>
  \<open>c.title()\<close>: a lowercase letter with a capital in Latin-1 moves 32 code points down
  and the sharp s U+00DF becomes \<open>Ss\<close>. The ordinal indicators have no capital and
  stay. The capitals of the micro sign U+00B5 and of U+00FF are U+039C and U+0178, which
  no \<open>char\<close> holds: the model keeps these two characters, so that on a text in which
  one of them starts a word \<open>str_title\<close> below differs from Python in that character.
  Only the priority and status columns are title-cased.
\<close>

definition upper_c :: "char \<Rightarrow> char" where
  "upper_c c =
     (if ((97::nat) \<le> of_char c \<and> of_char c \<le> (122::nat)) \<or>
         ((224::nat) \<le> of_char c \<and> of_char c \<le> (246::nat)) \<or>
         ((248::nat) \<le> of_char c \<and> of_char c \<le> (254::nat))
      then char_of (of_char c - (32::nat)) else c)"

definition title_c :: "char \<Rightarrow> string" where
  "title_c c = (if of_char c = (223::nat) then ''Ss'' else [upper_c c])"

text \<open>\<open>s.lower()\<close>\<close>

definition str_lower :: "string \<Rightarrow> string" where
  "str_lower s = map lower_c s"

text \<open>\<open>s.strip()\<close>: leading and trailing whitespace removed.\<close>

definition str_strip :: "string \<Rightarrow> string" where
  "str_strip s = rev (dropWhile is_space_c (rev (dropWhile is_space_c s)))"

text \<open>
  \<open>s.title()\<close>: a character that follows a cased character is lowercased, any other
  character is title-cased; the flag is whether the previous character is cased.
\<close>

fun title_from :: "bool \<Rightarrow> string \<Rightarrow> string" where
  "title_from previous_is_cased [] = []"
| "title_from previous_is_cased (c # cs) =
     (if previous_is_cased then [lower_c c] else title_c c) @ title_from (is_cased_c c) cs"

definition str_title :: "string \<Rightarrow> string" where
  "str_title s = title_from False s"

text \<open>
  \<open>s.isupper()\<close>: the scan of the interpreter. A lowercase character ends it with
  False; otherwise the answer is whether an uppercase character was seen.
\<close>

fun isupper_from :: "bool \<Rightarrow> string \<Rightarrow> bool" where
  "isupper_from cased [] = cased"
| "isupper_from cased (c # cs) =
     (if is_lower_c c then False else isupper_from (cased \<or> is_upper_c c) cs)"

definition str_isupper :: "string \<Rightarrow> bool" where
  "str_isupper s = isupper_from False s"

text \<open>\<open>word in text\<close> on strings: \<open>word\<close> occurs in \<open>text\<close> as a contiguous run.\<close>

fun startswith :: "string \<Rightarrow> string \<Rightarrow> bool" where
  "startswith [] text = True"
| "startswith (c # word) [] = False"
| "startswith (c # word) (d # text) = (c = d \<and> startswith word text)"

fun str_contains :: "string \<Rightarrow> string \<Rightarrow> bool" where
  "str_contains word [] = (word = [])"
| "str_contains word (d # text) = (startswith word (d # text) \<or> str_contains word text)"


section \<open>Data model\<close>

text \<open>
  A cell of a text column as \<open>read_csv\<close> delivers it: a string, or NaN where the field
  is absent. A numeric cell is a number or NaN (\<open>None\<close>); arithmetic on it is exact
  (\<open>real\<close>), NaN is absorbing.
\<close>

datatype cell = NaN | Str string

type_synonym num = "real option"

text \<open>The date column before and after \<open>pd.to_datetime(..., errors="coerce")\<close>.\<close>

datatype date_cell = RawDate cell | Timestamp int | NaT

record ticket =
  priority :: cell
  status :: cell
  subject :: cell
  message :: cell
  resolution_time_hours :: num
  created_date :: date_cell

record classified_ticket = ticket +
  issue_type :: string

record flagged_ticket = classified_ticket +
  is_flagged :: bool
  flag_reason :: string

text \<open>
  A DataFrame is the list of its rows in order, each with its index label. \<open>len(df)\<close>
  is the number of rows; \<open>df.loc[i, col]\<close> finds the row by LABEL and raises KeyError
  when no row carries the label.
\<close>

type_synonym 'r frame = "(nat \<times> 'r) list"

datatype error = KeyError nat | TypeError

definition loc :: "'r frame \<Rightarrow> nat \<Rightarrow> 'r option" where
  "loc df i = map_of df i"

text \<open>\<open>pd.read_csv\<close> labels the rows 0, 1, 2, ... (a RangeIndex).\<close>

definition load_data :: "'r list \<Rightarrow> 'r frame" where
  "load_data rows = zip [0..<length rows] rows"

definition range_indexed :: "'r frame \<Rightarrow> bool" where
  "range_indexed df \<longleftrightarrow> map fst df = [0..<length df]"


section \<open>Cleaning stages\<close>

text \<open>
  \<open>df.drop_duplicates(inplace=True)\<close>: a row equal in every column to an earlier row is
  dropped; the rows kept retain their index labels.
\<close>

fun drop_duplicates :: "'r list \<Rightarrow> 'r frame \<Rightarrow> 'r frame" where
  "drop_duplicates seen [] = []"
| "drop_duplicates seen ((l, row) # df) =
     (if row \<in> set seen then drop_duplicates seen df
      else (l, row) # drop_duplicates (row # seen) df)"

definition remove_duplicates :: "'r frame \<Rightarrow> 'r frame" where
  "remove_duplicates df = drop_duplicates [] df"

text \<open>\<open>.astype(str)\<close> on a text column: NaN becomes the string \<open>nan\<close>.\<close>

fun astype_str :: "cell \<Rightarrow> string" where
  "astype_str NaN = ''nan''"
| "astype_str (Str s) = s"

definition clean_text_row :: "'a ticket_scheme \<Rightarrow> 'a ticket_scheme" where
  "clean_text_row row =
     row\<lparr>priority := Str (str_title (str_strip (astype_str (priority row)))),
         status := Str (str_title (str_strip (astype_str (status row)))),
         subject := Str (str_strip (astype_str (subject row))),
         message := Str (str_strip (astype_str (message row)))\<rparr>"

definition clean_text_columns :: "'a ticket_scheme frame \<Rightarrow> 'a ticket_scheme frame" where
  "clean_text_columns df = map (\<lambda>(l, row). (l, clean_text_row row)) df"

text \<open>\<open>.fillna(v)\<close> replaces NaN cells only.\<close>

fun fillna :: "string \<Rightarrow> cell \<Rightarrow> cell" where
  "fillna v NaN = Str v"
| "fillna v (Str s) = Str s"

text \<open>
  \<open>Series.median()\<close> skips NaN; it is NaN when no number is left, the middle value of
  the sorted numbers when their count is odd and the mean of the two middle values
  otherwise.
\<close>

definition present :: "num list \<Rightarrow> real list" where
  "present xs = concat (map (\<lambda>x. case x of None \<Rightarrow> [] | Some v \<Rightarrow> [v]) xs)"

definition median :: "num list \<Rightarrow> num" where
  "median xs =
     (let s = sort (present xs); n = length s
      in if n = 0 then None
         else if odd n then Some (s ! (n div 2))
         else Some ((s ! (n div 2 - 1) + s ! (n div 2)) / 2))"

fun fillna_num :: "num \<Rightarrow> num \<Rightarrow> num" where
  "fillna_num v None = v"
| "fillna_num v (Some x) = Some x"

definition handle_missing_values :: "'a ticket_scheme frame \<Rightarrow> 'a ticket_scheme frame" where
  "handle_missing_values df =
     (let median_time = median (map (\<lambda>(l, row). resolution_time_hours row) df)
      in map (\<lambda>(l, row).
           (l, row\<lparr>priority := fillna ''Low'' (priority row),
                   status := fillna ''Open'' (status row),
                   resolution_time_hours :=
                     fillna_num median_time (resolution_time_hours row)\<rparr>)) df)"

text \<open>
  \<open>pd.to_datetime(..., errors="coerce")\<close>: the parser of pandas is a parameter; what
  it does not parse becomes NaT.
\<close>

fun coerce_date :: "(string \<Rightarrow> int option) \<Rightarrow> date_cell \<Rightarrow> date_cell" where
  "coerce_date to_datetime (RawDate NaN) = NaT"
| "coerce_date to_datetime (RawDate (Str s)) =
     (case to_datetime s of None \<Rightarrow> NaT | Some t \<Rightarrow> Timestamp t)"
| "coerce_date to_datetime (Timestamp t) = Timestamp t"
| "coerce_date to_datetime NaT = NaT"

definition clean_dates ::
  "(string \<Rightarrow> int option) \<Rightarrow> 'a ticket_scheme frame \<Rightarrow> 'a ticket_scheme frame" where
  "clean_dates to_datetime df =
     map (\<lambda>(l, row). (l, row\<lparr>created_date := coerce_date to_datetime (created_date row)\<rparr>)) df"


section \<open>Issue type classification\<close>

text \<open>
  The four keyword collections are Python sets. A \<open>for\<close> loop over a set visits each
  element once, in an order the language does not fix (it changes with the hash seed
  from run to run), so the order a run uses is a parameter of the model: a
  \<open>set_order\<close> lists each set in the order of iteration.
\<close>

definition billing_words :: "string set" where
  "billing_words = {''refund'', ''charge'', ''invoice'', ''payment''}"

definition technical_words :: "string set" where
  "technical_words = {''error'', ''bug'', ''crash'', ''login'', ''failed''}"

definition account_words :: "string set" where
  "account_words = {''password'', ''email'', ''account'', ''verify''}"

definition delivery_words :: "string set" where
  "delivery_words = {''delivery'', ''shipping'', ''late'', ''tracking''}"

record set_order =
  billing_order :: "string list"
  technical_order :: "string list"
  account_order :: "string list"
  delivery_order :: "string list"

definition iteration_order :: "set_order \<Rightarrow> bool" where
  "iteration_order ko \<longleftrightarrow>
     distinct (billing_order ko) \<and> set (billing_order ko) = billing_words \<and>
     distinct (technical_order ko) \<and> set (technical_order ko) = technical_words \<and>
     distinct (account_order ko) \<and> set (account_order ko) = account_words \<and>
     distinct (delivery_order ko) \<and> set (delivery_order ko) = delivery_words"

text \<open>The order in which the source text writes the elements.\<close>

definition written_order :: set_order where
  "written_order =
     \<lparr>billing_order = [''refund'', ''charge'', ''invoice'', ''payment''],
      technical_order = [''error'', ''bug'', ''crash'', ''login'', ''failed''],
      account_order = [''password'', ''email'', ''account'', ''verify''],
      delivery_order = [''delivery'', ''shipping'', ''late'', ''tracking'']\<rparr>"

text \<open>
  \<open>for word in words: if word in text: issue = label; break\<close>, from the current value
  of \<open>issue\<close>.
\<close>

fun scan_words :: "string list \<Rightarrow> string \<Rightarrow> string \<Rightarrow> string \<Rightarrow> string" where
  "scan_words [] text label issue = issue"
| "scan_words (word # words) text label issue =
     (if str_contains word text then label else scan_words words text label issue)"

text \<open>The body of the loop of \<open>classify_issues\<close> once the two cells are combined.\<close>

definition classify_text :: "set_order \<Rightarrow> string \<Rightarrow> string" where
  "classify_text ko combined =
     (let text = str_lower combined;
          issue = ''Other'';
          issue = scan_words (billing_order ko) text ''Billing'' issue;
          issue = (if issue = ''Other''
                   then scan_words (technical_order ko) text ''Technical'' issue else issue);
          issue = (if issue = ''Other''
                   then scan_words (account_order ko) text ''Account'' issue else issue);
          issue = (if issue = ''Other''
                   then scan_words (delivery_order ko) text ''Delivery'' issue else issue)
      in issue)"

text \<open>
  \<open>df.loc[i, "subject"] + " " + df.loc[i, "message"]\<close>: \<open>+\<close> concatenates strings and
  raises TypeError between a float (NaN) and a string.
\<close>

fun combine_text :: "cell \<Rightarrow> cell \<Rightarrow> error + string" where
  "combine_text (Str s) (Str m) = Inr (s @ '' '' @ m)"
| "combine_text _ _ = Inl TypeError"

fun classify_loop ::
  "set_order \<Rightarrow> 'a ticket_scheme frame \<Rightarrow> nat list \<Rightarrow> string list \<Rightarrow> error + string list" where
  "classify_loop ko df [] issue_types = Inr issue_types"
| "classify_loop ko df (i # rest) issue_types =
     (case loc df i of
        None \<Rightarrow> Inl (KeyError i)
      | Some row \<Rightarrow>
          (case combine_text (subject row) (message row) of
             Inl e \<Rightarrow> Inl e
           | Inr text \<Rightarrow> classify_loop ko df rest (issue_types @ [classify_text ko text])))"

definition with_issue_type :: "ticket \<Rightarrow> string \<Rightarrow> classified_ticket" where
  "with_issue_type row issue =
     \<lparr>priority = priority row, status = status row, subject = subject row,
      message = message row, resolution_time_hours = resolution_time_hours row,
      created_date = created_date row, issue_type = issue\<rparr>"

text \<open>\<open>df["issue_type"] = issue_types\<close> stores the list by POSITION.\<close>

definition classify_issues :: "set_order \<Rightarrow> ticket frame \<Rightarrow> error + classified_ticket frame" where
  "classify_issues ko df =
     (case classify_loop ko df [0..<length df] [] of
        Inl e \<Rightarrow> Inl e
      | Inr issue_types \<Rightarrow>
          Inr (map (\<lambda>((l, row), issue). (l, with_issue_type row issue)) (zip df issue_types)))"


section \<open>Flagging low-quality tickets\<close>

text \<open>\<open>str(x)\<close> of a cell.\<close>

fun py_str :: "cell \<Rightarrow> string" where
  "py_str NaN = ''nan''"
| "py_str (Str s) = s"

text \<open>The \<open>if\<close>/\<open>elif\<close> chain on one message; the pair is (\<open>flag\<close>, \<open>reason\<close>).\<close>

definition flag_message :: "string \<Rightarrow> bool \<times> string" where
  "flag_message msg =
     (if length msg < 20 then (True, ''Message too short'')
      else if str_isupper msg then (True, ''Message in all caps'')
      else if str_contains ''!!!'' msg \<or> str_contains ''???'' msg
           then (True, ''Excessive punctuation'')
      else (False, ''''))"

fun flag_loop ::
  "'a ticket_scheme frame \<Rightarrow> nat list \<Rightarrow> bool list \<Rightarrow> string list \<Rightarrow>
     error + (bool list \<times> string list)" where
  "flag_loop df [] flags reasons = Inr (flags, reasons)"
| "flag_loop df (i # rest) flags reasons =
     (case loc df i of
        None \<Rightarrow> Inl (KeyError i)
      | Some row \<Rightarrow>
          (case flag_message (py_str (message row)) of
             (flag, reason) \<Rightarrow> flag_loop df rest (flags @ [flag]) (reasons @ [reason])))"

definition with_flag :: "classified_ticket \<Rightarrow> bool \<Rightarrow> string \<Rightarrow> flagged_ticket" where
  "with_flag row flag reason =
     \<lparr>priority = priority row, status = status row, subject = subject row,
      message = message row, resolution_time_hours = resolution_time_hours row,
      created_date = created_date row, issue_type = issue_type row,
      is_flagged = flag, flag_reason = reason\<rparr>"

definition flag_tickets :: "classified_ticket frame \<Rightarrow> error + flagged_ticket frame" where
  "flag_tickets df =
     (case flag_loop df [0..<length df] [] [] of
        Inl e \<Rightarrow> Inl e
      | Inr (flags, reasons) \<Rightarrow>
          Inr (map (\<lambda>((l, row), flag, reason). (l, with_flag row flag reason))
                 (zip df (zip flags reasons))))"


section \<open>Summary statistics\<close>

text \<open>
  The summary is a Python dict with values of mixed type. A dict keeps its keys in
  insertion order; storing under a key that is present replaces the value in place.
\<close>

datatype pyval = PyInt int | PyFloat num | PyStr string

type_synonym ('k, 'v) dict = "('k \<times> 'v) list"

fun dict_set :: "'k \<Rightarrow> 'v \<Rightarrow> ('k, 'v) dict \<Rightarrow> ('k, 'v) dict" where
  "dict_set k v [] = [(k, v)]"
| "dict_set k v ((k', v') # d) =
     (if k = k' then (k, v) # d else (k', v') # dict_set k v d)"

definition dict_get :: "('k, 'v) dict \<Rightarrow> 'k \<Rightarrow> 'v option" where
  "dict_get d k = map_of d k"

text \<open>Float addition and division by a count; NaN is absorbing.\<close>

fun fadd :: "num \<Rightarrow> num \<Rightarrow> num" where
  "fadd (Some a) (Some b) = Some (a + b)"
| "fadd _ _ = None"

fun fdiv :: "num \<Rightarrow> nat \<Rightarrow> num" where
  "fdiv (Some a) n = Some (a / real n)"
| "fdiv None n = None"

text \<open>\<open>Series.mean()\<close> skips NaN and is NaN when no number is left.\<close>

definition series_mean :: "num list \<Rightarrow> num" where
  "series_mean xs =
     (let p = present xs in if p = [] then None else Some (sum_list p / real (length p)))"

text \<open>The loop that counts the flagged tickets.\<close>

fun count_loop :: "flagged_ticket frame \<Rightarrow> nat list \<Rightarrow> nat \<Rightarrow> error + nat" where
  "count_loop df [] flagged_count = Inr flagged_count"
| "count_loop df (i # rest) flagged_count =
     (case loc df i of
        None \<Rightarrow> Inl (KeyError i)
      | Some row \<Rightarrow>
          count_loop df rest (if is_flagged row = True then flagged_count + 1 else flagged_count))"

text \<open>
  The loop with two counters and two sums; the state is
  (\<open>flagged_sum\<close>, \<open>flagged_n\<close>, \<open>not_flagged_sum\<close>, \<open>not_flagged_n\<close>).
\<close>

fun sums_loop ::
  "flagged_ticket frame \<Rightarrow> nat list \<Rightarrow> num \<times> nat \<times> num \<times> nat \<Rightarrow>
     error + (num \<times> nat \<times> num \<times> nat)" where
  "sums_loop df [] acc = Inr acc"
| "sums_loop df (i # rest) (flagged_sum, flagged_n, not_flagged_sum, not_flagged_n) =
     (case loc df i of
        None \<Rightarrow> Inl (KeyError i)
      | Some row \<Rightarrow>
          (let time_val = resolution_time_hours row
           in if is_flagged row = True
              then sums_loop df rest
                     (fadd flagged_sum time_val, flagged_n + 1, not_flagged_sum, not_flagged_n)
              else sums_loop df rest
                     (flagged_sum, flagged_n, fadd not_flagged_sum time_val, not_flagged_n + 1)))"

text \<open>The loop that counts the tickets of each issue type in a dictionary.\<close>

fun issue_loop ::
  "flagged_ticket frame \<Rightarrow> nat list \<Rightarrow> (string, nat) dict \<Rightarrow> error + (string, nat) dict" where
  "issue_loop df [] issue_counts = Inr issue_counts"
| "issue_loop df (i # rest) issue_counts =
     (case loc df i of
        None \<Rightarrow> Inl (KeyError i)
      | Some row \<Rightarrow>
          (let issue = issue_type row
           in case dict_get issue_counts issue of
                Some n \<Rightarrow> issue_loop df rest (dict_set issue (n + 1) issue_counts)
              | None \<Rightarrow> issue_loop df rest (dict_set issue 1 issue_counts)))"

definition create_summary :: "flagged_ticket frame \<Rightarrow> error + (string, pyval) dict" where
  "create_summary df =
     (let summary = [];
          total_tickets = length df;
          summary = dict_set ''total_tickets'' (PyInt (int total_tickets)) summary
      in case count_loop df [0..<length df] 0 of
           Inl e \<Rightarrow> Inl e
         | Inr flagged_count \<Rightarrow>
     (let summary = dict_set ''flagged_tickets'' (PyInt (int flagged_count)) summary;
          summary = dict_set ''flagged_percent''
            (if total_tickets > 0
             then PyFloat (Some (real flagged_count / real total_tickets * 100))
             else PyInt 0) summary;
          summary = dict_set ''average_resolution_time_hours''
            (PyFloat (series_mean (map (\<lambda>(l, row). resolution_time_hours row) df))) summary
      in case sums_loop df [0..<length df] (Some 0, 0, Some 0, 0) of
           Inl e \<Rightarrow> Inl e
         | Inr (flagged_sum, flagged_n, not_flagged_sum, not_flagged_n) \<Rightarrow>
     (let summary = dict_set ''avg_resolution_flagged_hours''
            (if flagged_n > 0 then PyFloat (fdiv flagged_sum flagged_n) else PyStr ''N/A'')
            summary;
          summary = dict_set ''avg_resolution_not_flagged_hours''
            (if not_flagged_n > 0 then PyFloat (fdiv not_flagged_sum not_flagged_n)
             else PyStr ''N/A'') summary
      in case issue_loop df [0..<length df] [] of
           Inl e \<Rightarrow> Inl e
         | Inr issue_counts \<Rightarrow>
             Inr (fold (\<lambda>(issue, n) summary.
                          dict_set (''issue_count_'' @ issue) (PyInt (int n)) summary)
                    issue_counts summary))))"


section \<open>The main program\<close>

text \<open>
  The stages in the order \<open>main\<close> runs them, from the rows that \<open>read_csv\<close> delivers to
  the frame and the summary handed to the writers. An exception of a stage ends the run.
\<close>

definition main ::
  "set_order \<Rightarrow> (string \<Rightarrow> int option) \<Rightarrow> ticket list \<Rightarrow>
     error + (flagged_ticket frame \<times> (string, pyval) dict)" where
  "main ko to_datetime rows =
     (let df = load_data rows;
          df = remove_duplicates df;
          df = clean_text_columns df;
          df = handle_missing_values df;
          df = clean_dates to_datetime df
      in case classify_issues ko df of
           Inl e \<Rightarrow> Inl e
         | Inr df \<Rightarrow>
             (case flag_tickets df of
                Inl e \<Rightarrow> Inl e
              | Inr df \<Rightarrow>
                  (case create_summary df of
                     Inl e \<Rightarrow> Inl e
                   | Inr summary \<Rightarrow> Inr (df, summary))))"


section \<open>Notions used to state the properties\<close>

text \<open>
  The letters of Latin-1, listed on their own: the capital letters and, in the same
  order, their small letters; five more small letters (the ordinal indicators, the micro
  sign, the sharp s and U+00FF) have no capital in Latin-1.
\<close>

definition capital_letters :: string where
  "capital_letters =
     ''ABCDEFGHIJKLMNOPQRSTUVWXYZ'' @ map char_of ([192..<215] @ [216..<223] :: nat list)"

definition small_letters :: string where
  "small_letters =
     ''abcdefghijklmnopqrstuvwxyz'' @ map char_of ([224..<247] @ [248..<255] :: nat list)"

definition unpaired_small_letters :: string where
  "unpaired_small_letters = map char_of [170, 181, 186, 223, 255 :: nat]"

text \<open>The code points of the capital letters and of the small letters.\<close>

definition capital_codes :: "nat list" where
  "capital_codes = [65..<91] @ [192..<215] @ [216..<223]"

definition small_codes :: "nat list" where
  "small_codes = [97..<123] @ [224..<247] @ [248..<255] @ [170, 181, 186, 223, 255]"

definition is_capital_letter :: "char \<Rightarrow> bool" where
  "is_capital_letter c \<longleftrightarrow> c \<in> set capital_letters"

definition is_small_letter :: "char \<Rightarrow> bool" where
  "is_small_letter c \<longleftrightarrow> c \<in> set small_letters \<or> c \<in> set unpaired_small_letters"

text \<open>A cased character is a letter that is a capital or a small letter.\<close>

definition is_cased_letter :: "char \<Rightarrow> bool" where
  "is_cased_letter c \<longleftrightarrow> is_capital_letter c \<or> is_small_letter c"

text \<open>Lowercasing replaces every capital letter by its small letter and keeps the rest.\<close>

definition lowercase_of :: "char \<Rightarrow> char" where
  "lowercase_of c =
     (case map_of (zip capital_letters small_letters) c of None \<Rightarrow> c | Some l \<Rightarrow> l)"

definition lowercased :: "string \<Rightarrow> string" where
  "lowercased s = map lowercase_of s"

text \<open>\<open>word\<close> is a contiguous substring of \<open>text\<close>.\<close>

definition substring_of :: "string \<Rightarrow> string \<Rightarrow> bool" where
  "substring_of word text \<longleftrightarrow> (\<exists>before after. text = before @ word @ after)"

text \<open>A keyword set matches a text when one of its keywords is a substring of it.\<close>

definition matches :: "string set \<Rightarrow> string \<Rightarrow> bool" where
  "matches keywords text \<longleftrightarrow> (\<exists>word \<in> keywords. substring_of word text)"

text \<open>
  The classifier as the specification words it: the label of the first category, in
  the order Billing, Technical, Account, Delivery, whose keyword set matches the
  lowercased \<open>subject + " " + message\<close>, and Other when none does.
\<close>

definition spec_issue_type :: "string \<Rightarrow> string \<Rightarrow> string" where
  "spec_issue_type subj msg =
     (let text = lowercased (subj @ '' '' @ msg)
      in if matches billing_words text then ''Billing''
         else if matches technical_words text then ''Technical''
         else if matches account_words text then ''Account''
         else if matches delivery_words text then ''Delivery''
         else ''Other'')"

text \<open>
  The flagger as the specification words it: three rules in order, the first that
  applies wins. A message is all caps when it has a cased character and no small letter.
\<close>

definition all_caps :: "string \<Rightarrow> bool" where
  "all_caps msg \<longleftrightarrow> (\<exists>c \<in> set msg. is_cased_letter c) \<and> (\<forall>c \<in> set msg. \<not> is_small_letter c)"

definition spec_flag :: "string \<Rightarrow> bool \<times> string" where
  "spec_flag msg =
     (if length msg < 20 then (True, ''Message too short'')
      else if all_caps msg then (True, ''Message in all caps'')
      else if substring_of ''!!!'' msg \<or> substring_of ''???'' msg
           then (True, ''Excessive punctuation'')
      else (False, ''''))"




text \<open>The subject and message cells of every row are strings, as the cleaning stage leaves them.\<close>

fun is_text :: "cell \<Rightarrow> bool" where
  "is_text NaN = False"
| "is_text (Str s) = True"

definition text_frame :: "'a ticket_scheme frame \<Rightarrow> bool" where
  "text_frame df \<longleftrightarrow> (\<forall>(l, row) \<in> set df. is_text (subject row) \<and> is_text (message row))"







section \<open>Example data\<close>

text \<open>Four cleaned tickets, among them the concrete scenarios of the specification.\<close>

definition scenario_rows :: "ticket list" where
  "scenario_rows =
     [\<lparr>priority = Str ''High'', status = Str ''Open'', subject = Str ''Refund request'',
       message = Str ''Please refund my payment, this is a SCAM!!!'',
       resolution_time_hours = Some 4, created_date = RawDate (Str ''2024-01-05'')\<rparr>,
      \<lparr>priority = Str ''Low'', status = Str ''Closed'', subject = Str '''',
       message = Str ''bug'',
       resolution_time_hours = Some 10, created_date = RawDate (Str ''2024-01-06'')\<rparr>,
      \<lparr>priority = Str ''Low'', status = Str ''Open'', subject = Str '''',
       message = Str '''',
       resolution_time_hours = Some 1, created_date = RawDate NaN\<rparr>,
      \<lparr>priority = Str ''Medium'', status = Str ''Open'', subject = Str ''Order number'',
       message = Str ''12345678901234567890'',
       resolution_time_hours = Some 3, created_date = RawDate (Str ''2024-01-07'')\<rparr>]"

definition scenario_frame :: "ticket frame" where
  "scenario_frame = load_data scenario_rows"

definition scenario_classified :: "classified_ticket frame" where
  "scenario_classified =
     map (\<lambda>(l, row). (l, with_issue_type row
            (classify_text written_order
               (py_str (subject row) @ '' '' @ py_str (message row))))) scenario_frame"

text \<open>
  Seven cleaned tickets that exercise letter case and the three rules: keywords in
  capitals (with Technical keywords beside the Billing one), a keyword inside a longer
  word, a message in capitals but for a final small e with acute accent (U+00E9), twenty
  capital E with acute accent (U+00C9), a short message in capitals, a message with
  three question marks, and a ticket with empty subject and message.
\<close>

definition casing_rows :: "ticket list" where
  "casing_rows =
     [\<lparr>priority = Str ''High'', status = Str ''Open'', subject = Str ''REFUND NOW'',
       message = Str ''LOGIN FAILED AND I WANT MY MONEY BACK'',
       resolution_time_hours = Some 6, created_date = RawDate (Str ''2024-02-01'')\<rparr>,
      \<lparr>priority = Str ''Low'', status = Str ''Open'', subject = Str ''Plates'',
       message = Str ''The plates arrived chipped.'',
       resolution_time_hours = Some 2, created_date = RawDate (Str ''2024-02-02'')\<rparr>,
      \<lparr>priority = Str ''Low'', status = Str ''Closed'', subject = Str ''Question'',
       message = Str (''THIS IS ALL CAPS EXCEPT '' @ [CHR 0xE9]),
       resolution_time_hours = Some 8, created_date = RawDate (Str ''2024-02-03'')\<rparr>,
      \<lparr>priority = Str ''Medium'', status = Str ''Open'', subject = Str '''',
       message = Str (replicate 20 (CHR 0xC9)),
       resolution_time_hours = Some 5, created_date = RawDate (Str ''2024-02-04'')\<rparr>,
      \<lparr>priority = Str ''High'', status = Str ''Open'', subject = Str ''Crash'',
       message = Str ''HELP'',
       resolution_time_hours = Some 1, created_date = RawDate (Str ''2024-02-05'')\<rparr>,
      \<lparr>priority = Str ''Low'', status = Str ''Open'', subject = Str ''Invoice'',
       message = Str ''Where is my invoice for March???'',
       resolution_time_hours = Some 3, created_date = RawDate (Str ''2024-02-06'')\<rparr>,
      \<lparr>priority = Str ''Low'', status = Str ''Open'', subject = Str '''',
       message = Str '''',
       resolution_time_hours = Some 7, created_date = RawDate NaN\<rparr>]"

definition casing_frame :: "ticket frame" where
  "casing_frame = load_data casing_rows"

definition casing_classified :: "classified_ticket frame" where
  "casing_classified =
     map (\<lambda>(l, row). (l, with_issue_type row
            (classify_text written_order
               (py_str (subject row) @ '' '' @ py_str (message row))))) casing_frame"

text \<open>A batch whose second row repeats the first, and a ticket without priority and status.\<close>

definition duplicate_rows :: "ticket list" where
  "duplicate_rows =
     [\<lparr>priority = Str ''high'', status = Str ''open'', subject = Str ''Refund'',
       message = Str ''I was charged twice, please refund'',
       resolution_time_hours = Some 4, created_date = RawDate (Str ''2024-01-05'')\<rparr>,
      \<lparr>priority = Str ''high'', status = Str ''open'', subject = Str ''Refund'',
       message = Str ''I was charged twice, please refund'',
       resolution_time_hours = Some 4, created_date = RawDate (Str ''2024-01-05'')\<rparr>,
      \<lparr>priority = Str ''low'', status = Str ''closed'', subject = Str ''Login'',
       message = Str ''The login page shows an error'',
       resolution_time_hours = Some 2, created_date = RawDate (Str ''2024-01-06'')\<rparr>]"

definition absent_fields_rows :: "ticket list" where
  "absent_fields_rows =
     [\<lparr>priority = NaN, status = NaN, subject = Str ''Login'',
       message = Str ''The login page shows an error'',
       resolution_time_hours = Some 2, created_date = RawDate (Str ''2024-01-06'')\<rparr>]"


text \<open>
  Another iteration order of the keyword sets, and the seven tickets in the opposite
  order.
\<close>

definition reversed_order :: set_order where
  "reversed_order =
     \<lparr>billing_order = [''payment'', ''invoice'', ''charge'', ''refund''],
      technical_order = [''failed'', ''login'', ''crash'', ''bug'', ''error''],
      account_order = [''verify'', ''account'', ''email'', ''password''],
      delivery_order = [''tracking'', ''late'', ''shipping'', ''delivery'']\<rparr>"

definition reordered_frame :: "ticket frame" where
  "reordered_frame = load_data (rev casing_rows)"


section \<open>Auxiliary facts\<close>

lemma startswith_iff: "startswith word t \<longleftrightarrow> (\<exists>after. t = word @ after)"
  by (induction word t rule: startswith.induct) auto

lemma str_contains_iff: "str_contains word t \<longleftrightarrow> substring_of word t"
proof (induction t)
  case Nil
  then show ?case by (auto simp: substring_of_def)
next
  case (Cons d t)
  have "substring_of word (d # t) \<longleftrightarrow>
        (\<exists>after. d # t = word @ after) \<or> substring_of word t"
    unfolding substring_of_def
  proof
    assume "\<exists>before after. d # t = before @ word @ after"
    then obtain before after where e: "d # t = before @ word @ after" by blast
    show "(\<exists>after. d # t = word @ after) \<or> (\<exists>before after. t = before @ word @ after)"
    proof (cases before)
      case Nil
      with e show ?thesis by auto
    next
      case (Cons b bs)
      with e have "t = bs @ word @ after" by simp
      then show ?thesis by blast
    qed
  next
    assume "(\<exists>after. d # t = word @ after) \<or> (\<exists>before after. t = before @ word @ after)"
    then show "\<exists>before after. d # t = before @ word @ after"
    proof
      assume "\<exists>after. d # t = word @ after"
      then obtain after where "d # t = [] @ word @ after" by auto
      then show ?thesis by blast
    next
      assume "\<exists>before after. t = before @ word @ after"
      then obtain before after where "d # t = (d # before) @ word @ after" by auto
      then show ?thesis by blast
    qed
  qed
  with Cons show ?case by (simp add: startswith_iff)
qed

lemma scan_words_eq:
  "scan_words words t label issue =
     (if \<exists>word \<in> set words. substring_of word t then label else issue)"
  by (induction words) (auto simp: str_contains_iff)

lemma char_of_eq_iff: "n < 256 \<Longrightarrow> char_of (n::nat) = c \<longleftrightarrow> n = of_char c"
  by (metis of_char_of char_of_char mod_less)

lemma mem_char_table:
  assumes "\<forall>n \<in> set ns. n < (256::nat)"
  shows "c \<in> set (map char_of ns) \<longleftrightarrow> of_char c \<in> set ns"
proof
  assume "c \<in> set (map char_of ns)"
  then obtain n where n: "n \<in> set ns" "c = char_of n" by auto
  with assms have "n < 256" by simp
  then have "char_of n = c \<longleftrightarrow> n = of_char c" by (rule char_of_eq_iff)
  with n(2) have "of_char c = n" by metis
  with n(1) show "of_char c \<in> set ns" by simp
next
  assume "of_char c \<in> set ns"
  then have "char_of (of_char c :: nat) \<in> char_of ` set ns" by (rule imageI)
  then show "c \<in> set (map char_of ns)" by (simp only: char_of_char set_map)
qed

lemma map_of_char_table:
  assumes "\<forall>n \<in> set ns. n < (256::nat)"
  shows "map_of (map (\<lambda>n. (char_of n, g n)) ns) c =
           (if of_char c \<in> set ns then Some (g (of_char c)) else None)"
  using assms
proof (induction ns)
  case Nil
  show ?case by simp
next
  case (Cons n ns)
  from Cons.prems have n: "n < 256" and rest: "\<forall>n \<in> set ns. n < 256" by simp_all
  have e: "char_of n = c \<longleftrightarrow> n = of_char c" by (rule char_of_eq_iff[OF n])
  show ?case
  proof (cases "n = of_char c")
    case True
    with e have "char_of n = c" by simp
    with True show ?thesis by simp
  next
    case False
    with e have ne: "char_of n \<noteq> c" by simp
    have ih: "map_of (map (\<lambda>n. (char_of n, g n)) ns) c =
           (if of_char c \<in> set ns then Some (g (of_char c)) else None)"
      by (rule Cons.IH[OF rest])
    from ne False ih show ?thesis by auto
  qed
qed

lemma capital_letters_codes: "capital_letters = map char_of capital_codes"
  unfolding capital_letters_def capital_codes_def by code_simp

lemma small_letters_codes: "small_letters = map char_of (map (\<lambda>n. n + 32) capital_codes)"
  unfolding small_letters_def capital_codes_def by code_simp

lemma mem_capital_codes:
  "n \<in> set capital_codes \<longleftrightarrow> (65 \<le> n \<and> n \<le> 90) \<or> (192 \<le> n \<and> n \<le> 214) \<or> (216 \<le> n \<and> n \<le> 222)"
  unfolding capital_codes_def set_append set_upt Un_iff atLeastLessThan_iff by arith

lemma capital_codes_bound: "\<forall>n \<in> set capital_codes. n < 256"
  unfolding Ball_def mem_capital_codes by arith

lemma zip_map_same: "zip (map f xs) (map h xs) = map (\<lambda>x. (f x, h x)) xs"
  by (induction xs) simp_all

lemma is_upper_c_capital: "is_upper_c c = is_capital_letter c"
  unfolding is_capital_letter_def capital_letters_codes mem_char_table[OF capital_codes_bound]
    mem_capital_codes is_upper_c_def ..

lemma lower_c_lowercase_of: "lower_c c = lowercase_of c"
proof -
  have z: "zip capital_letters small_letters =
      map (\<lambda>n. (char_of n, char_of (n + 32))) capital_codes"
    unfolding capital_letters_codes small_letters_codes map_map zip_map_same by (simp add: comp_def)
  show ?thesis
    unfolding lowercase_of_def z map_of_char_table[OF capital_codes_bound] lower_c_def
      is_upper_c_def mem_capital_codes by simp
qed

lemma mem_small_codes:
  "n \<in> set small_codes \<longleftrightarrow>
     (97 \<le> n \<and> n \<le> 122) \<or> n = 170 \<or> n = 181 \<or> n = 186 \<or>
     (223 \<le> n \<and> n \<le> 246) \<or> (248 \<le> n \<and> n \<le> 255)"
  unfolding small_codes_def set_append set_upt Un_iff atLeastLessThan_iff list.set insert_iff
    empty_iff
  by arith

lemma small_codes_bound: "\<forall>n \<in> set small_codes. n < 256"
  unfolding Ball_def mem_small_codes by arith

lemma small_letters_all_codes: "small_letters @ unpaired_small_letters = map char_of small_codes"
  unfolding small_letters_def unpaired_small_letters_def small_codes_def by code_simp

lemma is_lower_c_small: "is_lower_c c = is_small_letter c"
proof -
  have "is_small_letter c \<longleftrightarrow> c \<in> set (small_letters @ unpaired_small_letters)"
    by (simp add: is_small_letter_def)
  also have "\<dots> \<longleftrightarrow> of_char c \<in> set small_codes"
    unfolding small_letters_all_codes by (rule mem_char_table[OF small_codes_bound])
  also have "\<dots> \<longleftrightarrow> is_lower_c c"
    unfolding is_lower_c_def mem_small_codes ..
  finally show ?thesis by simp
qed

lemma is_cased_c_letter: "is_cased_c c = is_cased_letter c"
  by (simp add: is_cased_c_def is_cased_letter_def is_upper_c_capital is_lower_c_small)

lemma str_lower_lowercased: "str_lower s = lowercased s"
  by (simp add: str_lower_def lowercased_def lower_c_lowercase_of)

lemma isupper_from_iff:
  "isupper_from cased s \<longleftrightarrow>
     (\<forall>c \<in> set s. \<not> is_lower_c c) \<and> (cased \<or> (\<exists>c \<in> set s. is_upper_c c))"
  by (induction s arbitrary: cased) auto

lemma str_isupper_iff: "str_isupper s \<longleftrightarrow> all_caps s"
  by (auto simp: str_isupper_def isupper_from_iff all_caps_def is_cased_letter_def
        is_upper_c_capital is_lower_c_small)

lemma loc_range_indexed:
  assumes "range_indexed df" "i < length df"
  shows "loc df i = Some (snd (df ! i))"
proof -
  from assms have d: "distinct (map fst df)" by (simp add: range_indexed_def)
  from assms have "fst (df ! i) = i"
    by (metis range_indexed_def nth_map nth_upt add_0)
  with assms have "(i, snd (df ! i)) \<in> set df"
    by (metis nth_mem prod.collapse)
  with d show ?thesis by (simp add: loc_def)
qed


lemma classify_text_spec:
  assumes "iteration_order ko"
  shows "classify_text ko (subj @ '' '' @ msg) = spec_issue_type subj msg"
  using assms
  by (simp add: classify_text_def spec_issue_type_def scan_words_eq matches_def
        iteration_order_def Let_def str_lower_lowercased)

lemma flag_message_spec: "flag_message msg = spec_flag msg"
  by (simp add: flag_message_def spec_flag_def str_isupper_iff str_contains_iff)

lemma combine_text_is_text:
  "is_text a \<Longrightarrow> is_text b \<Longrightarrow> combine_text a b = Inr (py_str a @ '' '' @ py_str b)"
  by (cases a; cases b) simp_all

lemma classify_loop_found:
  assumes "\<forall>i \<in> set js. loc df i = Some (g i) \<and> is_text (subject (g i)) \<and> is_text (message (g i))"
  shows "classify_loop ko df js acc =
           Inr (acc @ map (\<lambda>i. classify_text ko
                  (py_str (subject (g i)) @ '' '' @ py_str (message (g i)))) js)"
  using assms
proof (induction js arbitrary: acc)
  case Nil
  then show ?case by simp
next
  case (Cons j js)
  from Cons.prems have j: "loc df j = Some (g j)" by simp
  from Cons.prems have "is_text (subject (g j))" "is_text (message (g j))" by simp_all
  then have c: "combine_text (subject (g j)) (message (g j)) =
      Inr (py_str (subject (g j)) @ '' '' @ py_str (message (g j)))"
    by (rule combine_text_is_text)
  from Cons.prems have rest: "\<forall>i \<in> set js. loc df i = Some (g i) \<and>
    is_text (subject (g i)) \<and> is_text (message (g i))" by simp
  have "classify_loop ko df (j # js) acc =
          classify_loop ko df js (acc @ [classify_text ko
             (py_str (subject (g j)) @ '' '' @ py_str (message (g j)))])"
    by (simp only: classify_loop.simps j c option.case sum.case)
  also have "\<dots> = Inr ((acc @ [classify_text ko
             (py_str (subject (g j)) @ '' '' @ py_str (message (g j)))]) @
          map (\<lambda>i. classify_text ko
                  (py_str (subject (g i)) @ '' '' @ py_str (message (g i)))) js)"
    by (rule Cons.IH[OF rest])
  finally show ?case by simp
qed

lemma map_range_nth: "map (\<lambda>i. h (xs ! i)) [0..<length xs] = map h xs"
  by (rule nth_equalityI) simp_all

lemma zip_with_map: "map f (zip xs (map h xs)) = map (\<lambda>x. f (x, h x)) xs"
  by (induction xs) simp_all

lemma classify_issues_rows:
  assumes "range_indexed df" "text_frame df"
  shows "classify_issues ko df =
           Inr (map (\<lambda>(l, row). (l, with_issue_type row
                  (classify_text ko (py_str (subject row) @ '' '' @ py_str (message row))))) df)"
proof -
  have found: "\<forall>i \<in> set [0..<length df].
      loc df i = Some (snd (df ! i)) \<and> is_text (subject (snd (df ! i))) \<and>
      is_text (message (snd (df ! i)))"
  proof
    fix i assume "i \<in> set [0..<length df]"
    then have i: "i < length df" by simp
    then have "df ! i \<in> set df" by simp
    with assms(2) have "is_text (subject (snd (df ! i))) \<and> is_text (message (snd (df ! i)))"
      by (cases "df ! i") (auto simp: text_frame_def)
    with loc_range_indexed[OF assms(1) i]
    show "loc df i = Some (snd (df ! i)) \<and> is_text (subject (snd (df ! i))) \<and>
      is_text (message (snd (df ! i)))" by simp
  qed
  have m: "map (\<lambda>i. classify_text ko
          (py_str (subject (snd (df ! i))) @ '' '' @ py_str (message (snd (df ! i)))))
        [0..<length df] =
      map (\<lambda>r. classify_text ko
          (py_str (subject (snd r)) @ '' '' @ py_str (message (snd r)))) df"
    by (rule map_range_nth)
  have "classify_issues ko df =
      Inr (map (\<lambda>((l, row), issue). (l, with_issue_type row issue))
        (zip df (map (\<lambda>r. classify_text ko
          (py_str (subject (snd r)) @ '' '' @ py_str (message (snd r)))) df)))"
    unfolding classify_issues_def classify_loop_found[OF found] m by simp
  also have "\<dots> = Inr (map (\<lambda>(l, row). (l, with_issue_type row
                  (classify_text ko (py_str (subject row) @ '' '' @ py_str (message row))))) df)"
    unfolding zip_with_map by (simp add: split_def)
  finally show ?thesis .
qed

lemma zip_with_map2:
  "map f (zip xs (zip (map a xs) (map b xs))) = map (\<lambda>x. f (x, a x, b x)) xs"
  by (induction xs) simp_all

lemma flag_loop_found:
  assumes "\<forall>i \<in> set js. loc df i = Some (g i)"
  shows "flag_loop df js flags reasons =
           Inr (flags @ map (\<lambda>i. fst (flag_message (py_str (message (g i))))) js,
                reasons @ map (\<lambda>i. snd (flag_message (py_str (message (g i))))) js)"
  using assms
  by (induction js arbitrary: flags reasons) (simp_all add: split_def)

lemma flag_tickets_rows:
  assumes "range_indexed df"
  shows "flag_tickets df =
           Inr (map (\<lambda>(l, row). (l, with_flag row
                  (fst (flag_message (py_str (message row))))
                  (snd (flag_message (py_str (message row)))))) df)"
proof -
  have found: "\<forall>i \<in> set [0..<length df]. loc df i = Some (snd (df ! i))"
    using loc_range_indexed[OF assms] by simp
  show ?thesis
    unfolding flag_tickets_def flag_loop_found[OF found]
    by (simp add: map_range_nth[of "\<lambda>r. fst (flag_message (py_str (message (snd r))))" df]
        map_range_nth[of "\<lambda>r. snd (flag_message (py_str (message (snd r))))" df]
        zip_with_map2 split_def)
qed


lemma iteration_order_written: "iteration_order written_order"
  by (simp add: iteration_order_def written_order_def billing_words_def technical_words_def
        account_words_def delivery_words_def)

lemma range_indexed_scenario: "range_indexed scenario_frame"
  by code_simp

lemma text_frame_scenario: "text_frame scenario_frame"
  by code_simp

lemma range_indexed_map:
  "range_indexed df \<Longrightarrow> range_indexed (map (\<lambda>(l, row). (l, f row)) df)"
  by (simp add: range_indexed_def split_def comp_def)

lemma classify_then_flag:
  assumes "range_indexed df" and "text_frame df"
  shows "\<exists>c. classify_issues ko df = Inr c \<and>
           flag_tickets c =
             Inr (map (\<lambda>(l, row). (l, with_flag
                    (with_issue_type row
                       (classify_text ko (py_str (subject row) @ '' '' @ py_str (message row))))
                    (fst (flag_message (py_str (message row))))
                    (snd (flag_message (py_str (message row)))))) df)"
proof -
  let ?c = "map (\<lambda>(l, row). (l, with_issue_type row
              (classify_text ko (py_str (subject row) @ '' '' @ py_str (message row))))) df"
  have c: "classify_issues ko df = Inr ?c"
    by (rule classify_issues_rows[OF assms])
  have r: "range_indexed ?c"
    by (rule range_indexed_map[OF assms(1)])
  have "flag_tickets ?c =
      Inr (map (\<lambda>(l, row). (l, with_flag
                    (with_issue_type row
                       (classify_text ko (py_str (subject row) @ '' '' @ py_str (message row))))
                    (fst (flag_message (py_str (message row))))
                    (snd (flag_message (py_str (message row)))))) df)"
    unfolding flag_tickets_rows[OF r]
    by (simp add: split_def comp_def with_issue_type_def)
  with c show ?thesis by blast
qed


lemma range_indexed_scenario_classified: "range_indexed scenario_classified"
  unfolding scenario_classified_def
  by (rule range_indexed_map[OF range_indexed_scenario])

lemma digits_no_bangs: "\<not> substring_of ''!!!'' ''12345678901234567890''"
proof -
  have "\<not> str_contains ''!!!'' ''12345678901234567890''" by code_simp
  then show ?thesis unfolding str_contains_iff .
qed

lemma digits_no_marks: "\<not> substring_of ''???'' ''12345678901234567890''"
proof -
  have "\<not> str_contains ''???'' ''12345678901234567890''" by code_simp
  then show ?thesis unfolding str_contains_iff .
qed

lemma spec_issue_type_range:
  "spec_issue_type subj msg \<in> {''Billing'', ''Technical'', ''Account'', ''Delivery'', ''Other''}"
  by (simp add: spec_issue_type_def Let_def)

lemma spec_issue_type_other:
  "spec_issue_type subj msg = ''Other'' \<longleftrightarrow>
     \<not> matches (billing_words \<union> technical_words \<union> account_words \<union> delivery_words)
         (lowercased (subj @ '' '' @ msg))"
  by (auto simp: spec_issue_type_def Let_def matches_def)

lemma spec_issue_type_empty: "spec_issue_type '''' '''' = ''Other''"
proof -
  have "classify_text written_order ('''' @ '' '' @ '''') = ''Other''" by code_simp
  then show ?thesis by (simp only: classify_text_spec[OF iteration_order_written])
qed

lemma classify_issues_labels:
  assumes "iteration_order ko" and "range_indexed df" and "text_frame df"
  shows "\<exists>out. classify_issues ko df = Inr out \<and> length out = length df \<and>
     (\<forall>k < length df.
        fst (out ! k) = fst (df ! k) \<and>
        subject (snd (out ! k)) = subject (snd (df ! k)) \<and>
        message (snd (out ! k)) = message (snd (df ! k)) \<and>
        issue_type (snd (out ! k)) =
          spec_issue_type (py_str (subject (snd (df ! k)))) (py_str (message (snd (df ! k)))))"
proof -
  let ?out = "map (\<lambda>(l, row). (l, with_issue_type row
                  (spec_issue_type (py_str (subject row)) (py_str (message row))))) df"
  have 1: "classify_issues ko df = Inr ?out"
    by (simp only: classify_issues_rows[OF assms(2,3)] classify_text_spec[OF assms(1)])
  have 2: "length ?out = length df" by simp
  have 3: "\<forall>k < length df.
        fst (?out ! k) = fst (df ! k) \<and>
        subject (snd (?out ! k)) = subject (snd (df ! k)) \<and>
        message (snd (?out ! k)) = message (snd (df ! k)) \<and>
        issue_type (snd (?out ! k)) =
          spec_issue_type (py_str (subject (snd (df ! k)))) (py_str (message (snd (df ! k))))"
    by (simp add: split_def with_issue_type_def)
  from 1 2 3 show ?thesis by blast
qed

lemma flag_tickets_outcomes:
  assumes "range_indexed df"
  shows "\<exists>out. flag_tickets df = Inr out \<and> length out = length df \<and>
     (\<forall>k < length df.
        fst (out ! k) = fst (df ! k) \<and>
        subject (snd (out ! k)) = subject (snd (df ! k)) \<and>
        message (snd (out ! k)) = message (snd (df ! k)) \<and>
        issue_type (snd (out ! k)) = issue_type (snd (df ! k)) \<and>
        (is_flagged (snd (out ! k)), flag_reason (snd (out ! k))) =
          spec_flag (py_str (message (snd (df ! k)))))"
proof -
  let ?out = "map (\<lambda>(l, row). (l, with_flag row
                  (fst (flag_message (py_str (message row))))
                  (snd (flag_message (py_str (message row)))))) df"
  have 1: "flag_tickets df = Inr ?out"
    by (rule flag_tickets_rows[OF assms])
  have 2: "length ?out = length df" by simp
  have 3: "\<forall>k < length df.
        fst (?out ! k) = fst (df ! k) \<and>
        subject (snd (?out ! k)) = subject (snd (df ! k)) \<and>
        message (snd (?out ! k)) = message (snd (df ! k)) \<and>
        issue_type (snd (?out ! k)) = issue_type (snd (df ! k)) \<and>
        (is_flagged (snd (?out ! k)), flag_reason (snd (?out ! k))) =
          spec_flag (py_str (message (snd (df ! k))))"
    by (simp add: split_def with_flag_def flag_message_spec)
  from 1 2 3 show ?thesis by blast
qed

lemma range_indexed_casing: "range_indexed casing_frame"
  by code_simp

lemma text_frame_casing: "text_frame casing_frame"
  by code_simp

lemma range_indexed_casing_classified: "range_indexed casing_classified"
  unfolding casing_classified_def
  by (rule range_indexed_map[OF range_indexed_casing])

lemma length_casing: "length casing_frame = 7"
  by code_simp

lemma length_casing_classified: "length casing_classified = 7"
  by (simp add: casing_classified_def length_casing)

lemma length_scenario: "length scenario_frame = 4"
  by code_simp

lemma length_scenario_classified: "length scenario_classified = 4"
  by (simp add: scenario_classified_def length_scenario)

lemma scenario_digits: "message (snd (scenario_frame ! 3)) = Str ''12345678901234567890''"
  by code_simp

lemma scenario_classified_digits:
  "message (snd (scenario_classified ! 3)) = Str ''12345678901234567890''"
  using scenario_digits
  by (simp add: scenario_classified_def split_def with_issue_type_def length_scenario)

lemma casing_subject_0: "subject (snd (casing_frame ! 0)) = Str ''REFUND NOW''"
  by code_simp

lemma casing_message_0:
  "message (snd (casing_frame ! 0)) = Str ''LOGIN FAILED AND I WANT MY MONEY BACK''"
  by code_simp

lemma casing_subject_1: "subject (snd (casing_frame ! 1)) = Str ''Plates''"
  by code_simp

lemma casing_message_1: "message (snd (casing_frame ! 1)) = Str ''The plates arrived chipped.''"
  by code_simp

lemma casing_subject_2: "subject (snd (casing_frame ! 2)) = Str ''Question''"
  by code_simp

lemma casing_message_2:
  "message (snd (casing_frame ! 2)) = Str (''THIS IS ALL CAPS EXCEPT '' @ [CHR 0xE9])"
  by code_simp

lemma casing_message_3: "message (snd (casing_frame ! 3)) = Str (replicate 20 (CHR 0xC9))"
  by code_simp

lemma casing_subject_4: "subject (snd (casing_frame ! 4)) = Str ''Crash''"
  by code_simp

lemma casing_message_4: "message (snd (casing_frame ! 4)) = Str ''HELP''"
  by code_simp

lemma casing_message_5:
  "message (snd (casing_frame ! 5)) = Str ''Where is my invoice for March???''"
  by code_simp

lemma casing_subject_6: "subject (snd (casing_frame ! 6)) = Str ''''"
  by code_simp

lemma casing_message_6: "message (snd (casing_frame ! 6)) = Str ''''"
  by code_simp

lemma casing_classified_message:
  "k < 7 \<Longrightarrow> message (snd (casing_classified ! k)) = message (snd (casing_frame ! k))"
  by (simp add: casing_classified_def split_def with_issue_type_def length_casing)

text \<open>What the specification's classifier and flagger give on the example texts.\<close>

lemma spec_issue_type_capitals:
  "spec_issue_type ''REFUND NOW'' ''LOGIN FAILED AND I WANT MY MONEY BACK'' = ''Billing''"
proof -
  have "classify_text written_order
          (''REFUND NOW'' @ '' '' @ ''LOGIN FAILED AND I WANT MY MONEY BACK'') = ''Billing''"
    by code_simp
  then show ?thesis by (simp only: classify_text_spec[OF iteration_order_written])
qed

lemma spec_issue_type_inside_word:
  "spec_issue_type ''Plates'' ''The plates arrived chipped.'' = ''Delivery''"
proof -
  have "classify_text written_order
          (''Plates'' @ '' '' @ ''The plates arrived chipped.'') = ''Delivery''"
    by code_simp
  then show ?thesis by (simp only: classify_text_spec[OF iteration_order_written])
qed

lemma spec_issue_type_no_keyword:
  "spec_issue_type ''Question'' (''THIS IS ALL CAPS EXCEPT '' @ [CHR 0xE9]) = ''Other''"
proof -
  have "classify_text written_order
          (''Question'' @ '' '' @ (''THIS IS ALL CAPS EXCEPT '' @ [CHR 0xE9])) = ''Other''"
    by code_simp
  then show ?thesis by (simp only: classify_text_spec[OF iteration_order_written])
qed

lemma spec_issue_type_technical: "spec_issue_type ''Crash'' ''HELP'' = ''Technical''"
proof -
  have "classify_text written_order (''Crash'' @ '' '' @ ''HELP'') = ''Technical''"
    by code_simp
  then show ?thesis by (simp only: classify_text_spec[OF iteration_order_written])
qed

lemma spec_flag_capitals:
  "spec_flag ''LOGIN FAILED AND I WANT MY MONEY BACK'' = (True, ''Message in all caps'')"
proof -
  have "flag_message ''LOGIN FAILED AND I WANT MY MONEY BACK'' = (True, ''Message in all caps'')"
    by code_simp
  then show ?thesis by (simp only: flag_message_spec)
qed

lemma spec_flag_plain: "spec_flag ''The plates arrived chipped.'' = (False, '''')"
proof -
  have "flag_message ''The plates arrived chipped.'' = (False, '''')"
    by code_simp
  then show ?thesis by (simp only: flag_message_spec)
qed

lemma spec_flag_small_accented:
  "spec_flag (''THIS IS ALL CAPS EXCEPT '' @ [CHR 0xE9]) = (False, '''')"
proof -
  have "flag_message (''THIS IS ALL CAPS EXCEPT '' @ [CHR 0xE9]) = (False, '''')"
    by code_simp
  then show ?thesis by (simp only: flag_message_spec)
qed

lemma spec_flag_capital_accented:
  "spec_flag (replicate 20 (CHR 0xC9)) = (True, ''Message in all caps'')"
proof -
  have "flag_message (replicate 20 (CHR 0xC9)) = (True, ''Message in all caps'')"
    by code_simp
  then show ?thesis by (simp only: flag_message_spec)
qed

lemma spec_flag_short: "spec_flag ''HELP'' = (True, ''Message too short'')"
  by (simp add: spec_flag_def)

lemma all_caps_short: "all_caps ''HELP''"
proof -
  have "str_isupper ''HELP''" by code_simp
  then show ?thesis by (simp only: str_isupper_iff)
qed

lemma spec_flag_question_marks:
  "spec_flag ''Where is my invoice for March???'' = (True, ''Excessive punctuation'')"
proof -
  have "flag_message ''Where is my invoice for March???'' = (True, ''Excessive punctuation'')"
    by code_simp
  then show ?thesis by (simp only: flag_message_spec)
qed

lemma digits_uncased: "\<forall>c \<in> set ''12345678901234567890''. \<not> is_cased_letter c"
proof -
  have "\<forall>c \<in> set ''12345678901234567890''. \<not> is_cased_c c" by code_simp
  then show ?thesis by (simp only: is_cased_c_letter)
qed

lemma capitals_match_keyword:
  "matches (billing_words \<union> technical_words \<union> account_words \<union> delivery_words)
     (lowercased (''REFUND NOW'' @ '' '' @ ''LOGIN FAILED AND I WANT MY MONEY BACK''))"
proof -
  have "str_contains ''refund''
          (str_lower (''REFUND NOW'' @ '' '' @ ''LOGIN FAILED AND I WANT MY MONEY BACK''))"
    by code_simp
  then have "substring_of ''refund''
          (lowercased (''REFUND NOW'' @ '' '' @ ''LOGIN FAILED AND I WANT MY MONEY BACK''))"
    by (simp only: str_contains_iff str_lower_lowercased)
  moreover have "''refund'' \<in> billing_words \<union> technical_words \<union> account_words \<union> delivery_words"
    by (simp add: billing_words_def)
  ultimately show ?thesis unfolding matches_def by blast
qed


























lemma run_rows:
  assumes "iteration_order ko" and "range_indexed df" and "text_frame df"
  shows "\<exists>c f. classify_issues ko df = Inr c \<and> flag_tickets c = Inr f \<and>
           length f = length df \<and>
           (\<forall>j < length df.
              fst (f ! j) = fst (df ! j) \<and>
              issue_type (snd (f ! j)) =
                spec_issue_type (py_str (subject (snd (df ! j)))) (py_str (message (snd (df ! j)))) \<and>
              is_flagged (snd (f ! j)) = fst (spec_flag (py_str (message (snd (df ! j))))) \<and>
              flag_reason (snd (f ! j)) = snd (spec_flag (py_str (message (snd (df ! j))))))"
proof -
  let ?f = "map (\<lambda>(l, row). (l, with_flag
                    (with_issue_type row
                       (classify_text ko (py_str (subject row) @ '' '' @ py_str (message row))))
                    (fst (flag_message (py_str (message row))))
                    (snd (flag_message (py_str (message row)))))) df"
  from classify_then_flag[OF assms(2,3), of ko]
  obtain c where c: "classify_issues ko df = Inr c" "flag_tickets c = Inr ?f" by blast
  have l: "length ?f = length df" by simp
  have "\<forall>j < length df.
              fst (?f ! j) = fst (df ! j) \<and>
              issue_type (snd (?f ! j)) =
                classify_text ko (py_str (subject (snd (df ! j))) @ '' '' @
                                  py_str (message (snd (df ! j)))) \<and>
              is_flagged (snd (?f ! j)) = fst (flag_message (py_str (message (snd (df ! j))))) \<and>
              flag_reason (snd (?f ! j)) = snd (flag_message (py_str (message (snd (df ! j)))))"
    by (simp add: split_def with_flag_def with_issue_type_def)
  then have r: "\<forall>j < length df.
              fst (?f ! j) = fst (df ! j) \<and>
              issue_type (snd (?f ! j)) =
                spec_issue_type (py_str (subject (snd (df ! j)))) (py_str (message (snd (df ! j)))) \<and>
              is_flagged (snd (?f ! j)) = fst (spec_flag (py_str (message (snd (df ! j))))) \<and>
              flag_reason (snd (?f ! j)) = snd (spec_flag (py_str (message (snd (df ! j)))))"
    by (simp only: classify_text_spec[OF assms(1)] flag_message_spec)
  from c l r show ?thesis by blast
qed

lemma iteration_order_reversed: "iteration_order reversed_order"
  by (auto simp: iteration_order_def reversed_order_def billing_words_def technical_words_def
        account_words_def delivery_words_def)


lemma range_indexed_reordered: "range_indexed reordered_frame"
  by code_simp

lemma text_frame_reordered: "text_frame reordered_frame"
  by code_simp

lemma length_reordered: "length reordered_frame = 7"
  by code_simp

lemma reordered_subject_6: "subject (snd (reordered_frame ! 6)) = Str ''REFUND NOW''"
  by code_simp

lemma reordered_message_6:
  "message (snd (reordered_frame ! 6)) = Str ''LOGIN FAILED AND I WANT MY MONEY BACK''"
  by code_simp


section \<open>The claims\<close>

text \<open>
  C1. On a frame as the cleaning stage delivers it (RangeIndex, subject and message
  strings), the classifier returns and gives every row the label of the first
  category, in the order Billing, Technical, Account, Delivery, one of whose keywords
  is a contiguous substring of the lowercased \<open>subject + " " + message\<close>, whatever
  order the run iterates the keyword sets in; the match is plain substring
  containment. The label is read from the \<open>issue_type\<close> column of the row of the
  output, and the row keeps its label, subject and message.
\<close>

theorem classify_issues_first_match:
  assumes "iteration_order ko" and "range_indexed df" and "text_frame df"
  shows "\<exists>out. classify_issues ko df = Inr out \<and> length out = length df \<and>
     (\<forall>k < length df. \<forall>s m.
        subject (snd (df ! k)) = Str s \<and> message (snd (df ! k)) = Str m \<longrightarrow>
          fst (out ! k) = fst (df ! k) \<and>
          subject (snd (out ! k)) = Str s \<and> message (snd (out ! k)) = Str m \<and>
          issue_type (snd (out ! k)) = spec_issue_type s m)"
proof -
  from classify_issues_labels[OF assms]
  obtain out where o: "classify_issues ko df = Inr out" "length out = length df"
    and rows: "\<forall>k < length df.
        fst (out ! k) = fst (df ! k) \<and>
        subject (snd (out ! k)) = subject (snd (df ! k)) \<and>
        message (snd (out ! k)) = message (snd (df ! k)) \<and>
        issue_type (snd (out ! k)) =
          spec_issue_type (py_str (subject (snd (df ! k)))) (py_str (message (snd (df ! k))))"
    by blast
  have "\<forall>k < length df. \<forall>s m.
        subject (snd (df ! k)) = Str s \<and> message (snd (df ! k)) = Str m \<longrightarrow>
          fst (out ! k) = fst (df ! k) \<and>
          subject (snd (out ! k)) = Str s \<and> message (snd (out ! k)) = Str m \<and>
          issue_type (snd (out ! k)) = spec_issue_type s m"
  proof (intro allI impI)
    fix k s m
    assume k: "k < length df"
      and sm: "subject (snd (df ! k)) = Str s \<and> message (snd (df ! k)) = Str m"
    from rows k have
      "fst (out ! k) = fst (df ! k) \<and>
        subject (snd (out ! k)) = subject (snd (df ! k)) \<and>
        message (snd (out ! k)) = message (snd (df ! k)) \<and>
        issue_type (snd (out ! k)) =
          spec_issue_type (py_str (subject (snd (df ! k)))) (py_str (message (snd (df ! k))))"
      by blast
    with sm show "fst (out ! k) = fst (df ! k) \<and>
          subject (snd (out ! k)) = Str s \<and> message (snd (out ! k)) = Str m \<and>
          issue_type (snd (out ! k)) = spec_issue_type s m"
      by simp
  qed
  with o show ?thesis by blast
qed

theorem classify_issues_first_match_witness:
  "iteration_order written_order \<and> range_indexed casing_frame \<and> text_frame casing_frame \<and>
   (\<exists>out. classify_issues written_order casing_frame = Inr out \<and> length out = 7 \<and>
      subject (snd (out ! 0)) = Str ''REFUND NOW'' \<and>
      message (snd (out ! 0)) = Str ''LOGIN FAILED AND I WANT MY MONEY BACK'' \<and>
      issue_type (snd (out ! 0)) = ''Billing'' \<and>
      subject (snd (out ! 1)) = Str ''Plates'' \<and>
      message (snd (out ! 1)) = Str ''The plates arrived chipped.'' \<and>
      issue_type (snd (out ! 1)) = ''Delivery'' \<and>
      issue_type (snd (out ! 2)) = ''Other'' \<and>
      issue_type (snd (out ! 4)) = ''Technical'')"
proof -
  from classify_issues_first_match[OF iteration_order_written range_indexed_casing
      text_frame_casing]
  obtain out where o: "classify_issues written_order casing_frame = Inr out"
      "length out = length casing_frame"
    and rows: "\<And>k s m. k < length casing_frame \<Longrightarrow>
        subject (snd (casing_frame ! k)) = Str s \<Longrightarrow> message (snd (casing_frame ! k)) = Str m \<Longrightarrow>
          subject (snd (out ! k)) = Str s \<and> message (snd (out ! k)) = Str m \<and>
          issue_type (snd (out ! k)) = spec_issue_type s m"
    by blast
  have r0: "subject (snd (out ! 0)) = Str ''REFUND NOW'' \<and>
      message (snd (out ! 0)) = Str ''LOGIN FAILED AND I WANT MY MONEY BACK'' \<and>
      issue_type (snd (out ! 0)) = ''Billing''"
    using rows[OF _ casing_subject_0 casing_message_0] by (simp add: length_casing spec_issue_type_capitals)
  have r1: "subject (snd (out ! 1)) = Str ''Plates'' \<and>
      message (snd (out ! 1)) = Str ''The plates arrived chipped.'' \<and>
      issue_type (snd (out ! 1)) = ''Delivery''"
    using rows[OF _ casing_subject_1 casing_message_1] by (simp add: length_casing spec_issue_type_inside_word)
  have r2: "issue_type (snd (out ! 2)) = ''Other''"
    using rows[OF _ casing_subject_2 casing_message_2] by (simp only: length_casing spec_issue_type_no_keyword)
  have r4: "issue_type (snd (out ! 4)) = ''Technical''"
    using rows[OF _ casing_subject_4 casing_message_4] by (simp add: length_casing spec_issue_type_technical)
  from o length_casing have "length out = 7" by simp
  with o(1) r0 r1 r2 r4 iteration_order_written range_indexed_casing text_frame_casing
  show ?thesis by blast
qed

text \<open>
  C2. The flagger returns and gives every row the outcome of three rules on its
  message, the first that applies winning: shorter than 20 characters, "Message too
  short"; else a cased character and no lowercase one, "Message in all caps"; else
  \<open>!!!\<close> or \<open>???\<close> inside, "Excessive punctuation"; else not flagged, with the
  empty reason. A message that is short and all uppercase gets "Message too short".
  The outcome is read from the \<open>is_flagged\<close> and \<open>flag_reason\<close> columns of the
  row of the output.
\<close>

theorem flag_tickets_three_rules:
  assumes "range_indexed df"
  shows "\<exists>out. flag_tickets df = Inr out \<and> length out = length df \<and>
     (\<forall>k < length df. \<forall>msg. message (snd (df ! k)) = Str msg \<longrightarrow>
        fst (out ! k) = fst (df ! k) \<and> message (snd (out ! k)) = Str msg \<and>
        (is_flagged (snd (out ! k)), flag_reason (snd (out ! k))) = spec_flag msg \<and>
        (length msg < 20 \<and> all_caps msg \<longrightarrow>
           is_flagged (snd (out ! k)) \<and> flag_reason (snd (out ! k)) = ''Message too short''))"
proof -
  from flag_tickets_outcomes[OF assms]
  obtain out where o: "flag_tickets df = Inr out" "length out = length df"
    and rows: "\<forall>k < length df.
        fst (out ! k) = fst (df ! k) \<and>
        subject (snd (out ! k)) = subject (snd (df ! k)) \<and>
        message (snd (out ! k)) = message (snd (df ! k)) \<and>
        issue_type (snd (out ! k)) = issue_type (snd (df ! k)) \<and>
        (is_flagged (snd (out ! k)), flag_reason (snd (out ! k))) =
          spec_flag (py_str (message (snd (df ! k))))"
    by blast
  have "\<forall>k < length df. \<forall>msg. message (snd (df ! k)) = Str msg \<longrightarrow>
        fst (out ! k) = fst (df ! k) \<and> message (snd (out ! k)) = Str msg \<and>
        (is_flagged (snd (out ! k)), flag_reason (snd (out ! k))) = spec_flag msg \<and>
        (length msg < 20 \<and> all_caps msg \<longrightarrow>
           is_flagged (snd (out ! k)) \<and> flag_reason (snd (out ! k)) = ''Message too short'')"
  proof (intro allI impI)
    fix k msg
    assume k: "k < length df" and m: "message (snd (df ! k)) = Str msg"
    from rows k have
      "fst (out ! k) = fst (df ! k) \<and>
        message (snd (out ! k)) = message (snd (df ! k)) \<and>
        (is_flagged (snd (out ! k)), flag_reason (snd (out ! k))) =
          spec_flag (py_str (message (snd (df ! k))))"
      by blast
    with m have r: "fst (out ! k) = fst (df ! k) \<and> message (snd (out ! k)) = Str msg \<and>
        (is_flagged (snd (out ! k)), flag_reason (snd (out ! k))) = spec_flag msg"
      by simp
    have "length msg < 20 \<and> all_caps msg \<longrightarrow>
           is_flagged (snd (out ! k)) \<and> flag_reason (snd (out ! k)) = ''Message too short''"
    proof
      assume "length msg < 20 \<and> all_caps msg"
      then have "spec_flag msg = (True, ''Message too short'')" by (simp add: spec_flag_def)
      with r show "is_flagged (snd (out ! k)) \<and> flag_reason (snd (out ! k)) = ''Message too short''"
        by simp
    qed
    with r show "fst (out ! k) = fst (df ! k) \<and> message (snd (out ! k)) = Str msg \<and>
        (is_flagged (snd (out ! k)), flag_reason (snd (out ! k))) = spec_flag msg \<and>
        (length msg < 20 \<and> all_caps msg \<longrightarrow>
           is_flagged (snd (out ! k)) \<and> flag_reason (snd (out ! k)) = ''Message too short'')"
      by blast
  qed
  with o show ?thesis by blast
qed

theorem flag_tickets_three_rules_witness:
  "range_indexed casing_classified \<and>
   (\<exists>out. flag_tickets casing_classified = Inr out \<and> length out = 7 \<and>
      message (snd (out ! 0)) = Str ''LOGIN FAILED AND I WANT MY MONEY BACK'' \<and>
      is_flagged (snd (out ! 0)) = True \<and> flag_reason (snd (out ! 0)) = ''Message in all caps'' \<and>
      message (snd (out ! 1)) = Str ''The plates arrived chipped.'' \<and>
      is_flagged (snd (out ! 1)) = False \<and> flag_reason (snd (out ! 1)) = '''' \<and>
      message (snd (out ! 2)) = Str (''THIS IS ALL CAPS EXCEPT '' @ [CHR 0xE9]) \<and>
      is_flagged (snd (out ! 2)) = False \<and> flag_reason (snd (out ! 2)) = '''' \<and>
      message (snd (out ! 3)) = Str (replicate 20 (CHR 0xC9)) \<and>
      is_flagged (snd (out ! 3)) = True \<and> flag_reason (snd (out ! 3)) = ''Message in all caps'' \<and>
      length ''HELP'' < 20 \<and> all_caps ''HELP'' \<and>
      message (snd (out ! 4)) = Str ''HELP'' \<and>
      is_flagged (snd (out ! 4)) = True \<and> flag_reason (snd (out ! 4)) = ''Message too short'' \<and>
      message (snd (out ! 5)) = Str ''Where is my invoice for March???'' \<and>
      is_flagged (snd (out ! 5)) = True \<and>
      flag_reason (snd (out ! 5)) = ''Excessive punctuation'')"
proof -
  from flag_tickets_three_rules[OF range_indexed_casing_classified]
  obtain out where o: "flag_tickets casing_classified = Inr out"
      "length out = length casing_classified"
    and rows: "\<And>k msg. k < length casing_classified \<Longrightarrow>
        message (snd (casing_classified ! k)) = Str msg \<Longrightarrow>
          message (snd (out ! k)) = Str msg \<and>
          (is_flagged (snd (out ! k)), flag_reason (snd (out ! k))) = spec_flag msg"
    by blast
  have m0: "message (snd (casing_classified ! 0)) = message (snd (casing_frame ! 0))"
    by (rule casing_classified_message) simp
  have m1: "message (snd (casing_classified ! 1)) = message (snd (casing_frame ! 1))"
    by (rule casing_classified_message) simp
  have m2: "message (snd (casing_classified ! 2)) = message (snd (casing_frame ! 2))"
    by (rule casing_classified_message) simp
  have m3: "message (snd (casing_classified ! 3)) = message (snd (casing_frame ! 3))"
    by (rule casing_classified_message) simp
  have m4: "message (snd (casing_classified ! 4)) = message (snd (casing_frame ! 4))"
    by (rule casing_classified_message) simp
  have m5: "message (snd (casing_classified ! 5)) = message (snd (casing_frame ! 5))"
    by (rule casing_classified_message) simp
  have r0: "message (snd (out ! 0)) = Str ''LOGIN FAILED AND I WANT MY MONEY BACK'' \<and>
      is_flagged (snd (out ! 0)) = True \<and> flag_reason (snd (out ! 0)) = ''Message in all caps''"
    using rows[OF _ m0[unfolded casing_message_0]] by (simp add: length_casing_classified spec_flag_capitals)
  have r1: "message (snd (out ! 1)) = Str ''The plates arrived chipped.'' \<and>
      is_flagged (snd (out ! 1)) = False \<and> flag_reason (snd (out ! 1)) = ''''"
    using rows[OF _ m1[unfolded casing_message_1]] by (simp add: length_casing_classified spec_flag_plain)
  have r2: "message (snd (out ! 2)) = Str (''THIS IS ALL CAPS EXCEPT '' @ [CHR 0xE9]) \<and>
      is_flagged (snd (out ! 2)) = False \<and> flag_reason (snd (out ! 2)) = ''''"
    using rows[OF _ m2[unfolded casing_message_2]] by (simp only: length_casing_classified spec_flag_small_accented) simp
  have r3: "message (snd (out ! 3)) = Str (replicate 20 (CHR 0xC9)) \<and>
      is_flagged (snd (out ! 3)) = True \<and> flag_reason (snd (out ! 3)) = ''Message in all caps''"
    using rows[OF _ m3[unfolded casing_message_3]] by (simp only: length_casing_classified spec_flag_capital_accented) simp
  have r4: "message (snd (out ! 4)) = Str ''HELP'' \<and>
      is_flagged (snd (out ! 4)) = True \<and> flag_reason (snd (out ! 4)) = ''Message too short''"
    using rows[OF _ m4[unfolded casing_message_4]] by (simp add: length_casing_classified spec_flag_short)
  have r5: "message (snd (out ! 5)) = Str ''Where is my invoice for March???'' \<and>
      is_flagged (snd (out ! 5)) = True \<and>
      flag_reason (snd (out ! 5)) = ''Excessive punctuation''"
    using rows[OF _ m5[unfolded casing_message_5]] by (simp add: length_casing_classified spec_flag_question_marks)
  have short: "length ''HELP'' < 20" by simp
  from o length_casing_classified have "length out = 7" by simp
  with o(1) r0 r1 r2 r3 r4 r5 short all_caps_short range_indexed_casing_classified
  show ?thesis by blast
qed

text \<open>
  C3. The claim is that every row that survives deduplication is classified and flagged
  and that the per-row lookups succeed when deduplication removed rows. The program
  does not do this: the rows kept by \<open>drop_duplicates\<close> retain their labels, the
  loops look rows up by the labels \<open>0, ..., len(df) - 1\<close>, and a batch whose second
  row repeats the first ends with \<open>KeyError 1\<close> in \<open>classify_issues\<close>, for every
  iteration order and every date parser.
\<close>

theorem main_fails_after_deduplication:
  "remove_duplicates (load_data duplicate_rows) =
     [(0, duplicate_rows ! 0), (2, duplicate_rows ! 2)] \<and>
   main ko to_datetime duplicate_rows = Inl (KeyError 1)"
  by (simp add: main_def load_data_def remove_duplicates_def duplicate_rows_def
      clean_text_columns_def handle_missing_values_def clean_dates_def classify_issues_def
      loc_def upt_rec Let_def clean_text_row_def)

text \<open>
  C4. The claim is that an absent priority becomes \<open>Low\<close> and an absent status
  \<open>Open\<close>. The program does not do this: \<open>astype(str)\<close> in the cleaning stage has
  already turned the absent cell into the text \<open>nan\<close>, title-cased to \<open>Nan\<close>, so
  that \<open>fillna\<close> finds nothing to fill.
\<close>

theorem absent_priority_becomes_Nan:
  "map (\<lambda>(l, row). (priority row, status row))
     (handle_missing_values (clean_text_columns (remove_duplicates (load_data absent_fields_rows))))
   = [(Str ''Nan'', Str ''Nan'')]"
  by code_simp

text \<open>
  C5. Every row gets an issue type; it is one of Billing, Technical, Account, Delivery
  and Other, and it is Other exactly when no keyword of the four sets is a substring of
  the lowercased \<open>subject + " " + message\<close>. With empty subject and empty message
  the combined text is a single space and the label is Other.
\<close>

theorem issue_type_total_and_other:
  assumes "iteration_order ko" and "range_indexed df" and "text_frame df"
  shows "\<exists>out. classify_issues ko df = Inr out \<and> length out = length df \<and>
     (\<forall>k < length df.
        issue_type (snd (out ! k)) \<in>
          {''Billing'', ''Technical'', ''Account'', ''Delivery'', ''Other''} \<and>
        (\<forall>s m. subject (snd (df ! k)) = Str s \<and> message (snd (df ! k)) = Str m \<longrightarrow>
           (issue_type (snd (out ! k)) = ''Other'' \<longleftrightarrow>
              \<not> matches (billing_words \<union> technical_words \<union> account_words \<union> delivery_words)
                  (lowercased (s @ '' '' @ m)))) \<and>
        (subject (snd (df ! k)) = Str '''' \<and> message (snd (df ! k)) = Str '''' \<longrightarrow>
           lowercased ('''' @ '' '' @ '''') = '' '' \<and> issue_type (snd (out ! k)) = ''Other''))"
proof -
  from classify_issues_labels[OF assms]
  obtain out where o: "classify_issues ko df = Inr out" "length out = length df"
    and rows: "\<forall>k < length df.
        fst (out ! k) = fst (df ! k) \<and>
        subject (snd (out ! k)) = subject (snd (df ! k)) \<and>
        message (snd (out ! k)) = message (snd (df ! k)) \<and>
        issue_type (snd (out ! k)) =
          spec_issue_type (py_str (subject (snd (df ! k)))) (py_str (message (snd (df ! k))))"
    by blast
  have space: "lowercased ('''' @ '' '' @ '''') = '' ''"
    by (simp add: lowercased_def lower_c_lowercase_of[symmetric] lower_c_def is_upper_c_def)
  have "\<forall>k < length df.
        issue_type (snd (out ! k)) \<in>
          {''Billing'', ''Technical'', ''Account'', ''Delivery'', ''Other''} \<and>
        (\<forall>s m. subject (snd (df ! k)) = Str s \<and> message (snd (df ! k)) = Str m \<longrightarrow>
           (issue_type (snd (out ! k)) = ''Other'' \<longleftrightarrow>
              \<not> matches (billing_words \<union> technical_words \<union> account_words \<union> delivery_words)
                  (lowercased (s @ '' '' @ m)))) \<and>
        (subject (snd (df ! k)) = Str '''' \<and> message (snd (df ! k)) = Str '''' \<longrightarrow>
           lowercased ('''' @ '' '' @ '''') = '' '' \<and> issue_type (snd (out ! k)) = ''Other'')"
  proof (intro allI impI)
    fix k assume k: "k < length df"
    with rows have i: "issue_type (snd (out ! k)) =
        spec_issue_type (py_str (subject (snd (df ! k)))) (py_str (message (snd (df ! k))))"
      by blast
    have a: "issue_type (snd (out ! k)) \<in>
          {''Billing'', ''Technical'', ''Account'', ''Delivery'', ''Other''}"
      unfolding i by (rule spec_issue_type_range)
    have b: "\<forall>s m. subject (snd (df ! k)) = Str s \<and> message (snd (df ! k)) = Str m \<longrightarrow>
           (issue_type (snd (out ! k)) = ''Other'' \<longleftrightarrow>
              \<not> matches (billing_words \<union> technical_words \<union> account_words \<union> delivery_words)
                  (lowercased (s @ '' '' @ m)))"
    proof (intro allI impI)
      fix s m
      assume "subject (snd (df ! k)) = Str s \<and> message (snd (df ! k)) = Str m"
      then have "issue_type (snd (out ! k)) = spec_issue_type s m"
        unfolding i by simp
      then show "issue_type (snd (out ! k)) = ''Other'' \<longleftrightarrow>
              \<not> matches (billing_words \<union> technical_words \<union> account_words \<union> delivery_words)
                  (lowercased (s @ '' '' @ m))"
        by (simp only: spec_issue_type_other)
    qed
    have c: "subject (snd (df ! k)) = Str '''' \<and> message (snd (df ! k)) = Str '''' \<longrightarrow>
           lowercased ('''' @ '' '' @ '''') = '' '' \<and> issue_type (snd (out ! k)) = ''Other''"
    proof
      assume "subject (snd (df ! k)) = Str '''' \<and> message (snd (df ! k)) = Str ''''"
      then have "py_str (subject (snd (df ! k))) = ''''" "py_str (message (snd (df ! k))) = ''''"
        by simp_all
      then have "issue_type (snd (out ! k)) = ''Other''"
        unfolding i by (simp only: spec_issue_type_empty)
      with space show "lowercased ('''' @ '' '' @ '''') = '' '' \<and>
          issue_type (snd (out ! k)) = ''Other''"
        by (rule conjI)
    qed
    from a b c show "issue_type (snd (out ! k)) \<in>
          {''Billing'', ''Technical'', ''Account'', ''Delivery'', ''Other''} \<and>
        (\<forall>s m. subject (snd (df ! k)) = Str s \<and> message (snd (df ! k)) = Str m \<longrightarrow>
           (issue_type (snd (out ! k)) = ''Other'' \<longleftrightarrow>
              \<not> matches (billing_words \<union> technical_words \<union> account_words \<union> delivery_words)
                  (lowercased (s @ '' '' @ m)))) \<and>
        (subject (snd (df ! k)) = Str '''' \<and> message (snd (df ! k)) = Str '''' \<longrightarrow>
           lowercased ('''' @ '' '' @ '''') = '' '' \<and> issue_type (snd (out ! k)) = ''Other'')"
      by blast
  qed
  with o show ?thesis by blast
qed

theorem issue_type_total_and_other_witness:
  "iteration_order written_order \<and> range_indexed casing_frame \<and> text_frame casing_frame \<and>
   subject (snd (casing_frame ! 6)) = Str '''' \<and> message (snd (casing_frame ! 6)) = Str '''' \<and>
   subject (snd (casing_frame ! 0)) = Str ''REFUND NOW'' \<and>
   message (snd (casing_frame ! 0)) = Str ''LOGIN FAILED AND I WANT MY MONEY BACK'' \<and>
   matches (billing_words \<union> technical_words \<union> account_words \<union> delivery_words)
     (lowercased (''REFUND NOW'' @ '' '' @ ''LOGIN FAILED AND I WANT MY MONEY BACK'')) \<and>
   (\<exists>out. classify_issues written_order casing_frame = Inr out \<and> length out = 7 \<and>
      issue_type (snd (out ! 6)) = ''Other'' \<and>
      issue_type (snd (out ! 0)) \<noteq> ''Other'' \<and>
      issue_type (snd (out ! 0)) \<in>
        {''Billing'', ''Technical'', ''Account'', ''Delivery'', ''Other''})"
proof -
  note s6 = casing_subject_6 and m6 = casing_message_6
    and s0 = casing_subject_0 and m0 = casing_message_0
  from issue_type_total_and_other[OF iteration_order_written range_indexed_casing
      text_frame_casing]
  obtain out where o: "classify_issues written_order casing_frame = Inr out"
      "length out = length casing_frame"
    and rows: "\<forall>k < length casing_frame.
        issue_type (snd (out ! k)) \<in>
          {''Billing'', ''Technical'', ''Account'', ''Delivery'', ''Other''} \<and>
        (\<forall>s m. subject (snd (casing_frame ! k)) = Str s \<and>
                message (snd (casing_frame ! k)) = Str m \<longrightarrow>
           (issue_type (snd (out ! k)) = ''Other'' \<longleftrightarrow>
              \<not> matches (billing_words \<union> technical_words \<union> account_words \<union> delivery_words)
                  (lowercased (s @ '' '' @ m)))) \<and>
        (subject (snd (casing_frame ! k)) = Str '''' \<and>
         message (snd (casing_frame ! k)) = Str '''' \<longrightarrow>
           lowercased ('''' @ '' '' @ '''') = '' '' \<and> issue_type (snd (out ! k)) = ''Other'')"
    by blast
  have k6: "6 < length casing_frame" and k0: "0 < length casing_frame"
    by (simp_all add: length_casing)
  from rows k6 s6 m6 have r6: "issue_type (snd (out ! 6)) = ''Other''" by blast
  from rows k0 have r0: "issue_type (snd (out ! 0)) \<in>
        {''Billing'', ''Technical'', ''Account'', ''Delivery'', ''Other''}"
    by blast
  from rows k0 s0 m0 have "issue_type (snd (out ! 0)) = ''Other'' \<longleftrightarrow>
      \<not> matches (billing_words \<union> technical_words \<union> account_words \<union> delivery_words)
          (lowercased (''REFUND NOW'' @ '' '' @ ''LOGIN FAILED AND I WANT MY MONEY BACK''))"
    by blast
  with capitals_match_keyword have n0: "issue_type (snd (out ! 0)) \<noteq> ''Other''" by blast
  from o length_casing have "length out = 7" by simp
  with o(1) r6 r0 n0 s6 m6 s0 m0 capitals_match_keyword iteration_order_written
    range_indexed_casing text_frame_casing
  show ?thesis by blast
qed

text \<open>
  C6. A message without any cased character, of length at least 20 and containing
  neither \<open>!!!\<close> nor \<open>???\<close>, is not flagged: the all-caps rule does not fire on it.
\<close>

theorem uncased_message_not_flagged:
  assumes "range_indexed df" and "k < length df"
    and "message (snd (df ! k)) = Str msg"
    and "\<forall>c \<in> set msg. \<not> is_cased_letter c" and "20 \<le> length msg"
    and "\<not> substring_of ''!!!'' msg" and "\<not> substring_of ''???'' msg"
  shows "\<exists>out. flag_tickets df = Inr out \<and> length out = length df \<and>
           message (snd (out ! k)) = Str msg \<and>
           is_flagged (snd (out ! k)) = False \<and> flag_reason (snd (out ! k)) = ''''"
proof -
  from flag_tickets_outcomes[OF assms(1)]
  obtain out where o: "flag_tickets df = Inr out" "length out = length df"
    and rows: "\<forall>k < length df.
        fst (out ! k) = fst (df ! k) \<and>
        subject (snd (out ! k)) = subject (snd (df ! k)) \<and>
        message (snd (out ! k)) = message (snd (df ! k)) \<and>
        issue_type (snd (out ! k)) = issue_type (snd (df ! k)) \<and>
        (is_flagged (snd (out ! k)), flag_reason (snd (out ! k))) =
          spec_flag (py_str (message (snd (df ! k))))"
    by blast
  from assms(4-7) have f: "spec_flag msg = (False, '''')"
    by (auto simp: spec_flag_def all_caps_def)
  from rows assms(2) have "message (snd (out ! k)) = message (snd (df ! k)) \<and>
        (is_flagged (snd (out ! k)), flag_reason (snd (out ! k))) =
          spec_flag (py_str (message (snd (df ! k))))"
    by blast
  with assms(3) f have "message (snd (out ! k)) = Str msg \<and>
      is_flagged (snd (out ! k)) = False \<and> flag_reason (snd (out ! k)) = ''''"
    by simp
  with o show ?thesis by blast
qed

theorem uncased_message_not_flagged_witness:
  "range_indexed scenario_classified \<and> 3 < length scenario_classified \<and>
   message (snd (scenario_classified ! 3)) = Str ''12345678901234567890'' \<and>
   20 \<le> length ''12345678901234567890'' \<and>
   \<not> substring_of ''!!!'' ''12345678901234567890'' \<and>
   \<not> substring_of ''???'' ''12345678901234567890'' \<and>
   (\<exists>out. flag_tickets scenario_classified = Inr out \<and>
      length out = length scenario_classified \<and>
      message (snd (out ! 3)) = Str ''12345678901234567890'' \<and>
      is_flagged (snd (out ! 3)) = False \<and> flag_reason (snd (out ! 3)) = '''')"
proof -
  have k: "3 < length scenario_classified" by (simp add: length_scenario_classified)
  note m = scenario_classified_digits
  have n: "20 \<le> length ''12345678901234567890''" by simp
  from uncased_message_not_flagged[OF range_indexed_scenario_classified k m digits_uncased n
      digits_no_bangs digits_no_marks]
    range_indexed_scenario_classified k m n digits_no_bangs digits_no_marks
  show ?thesis by blast
qed

text \<open>
  C7. After flagging, every row is flagged exactly when its reason is not empty, and
  the reason is one of the three reasons of the catalogue or the empty string.
\<close>

theorem flag_reason_iff_flagged:
  assumes "range_indexed df"
  shows "\<exists>out. flag_tickets df = Inr out \<and> length out = length df \<and>
           (\<forall>(l, row) \<in> set out.
              (is_flagged row \<longleftrightarrow> flag_reason row \<noteq> '''') \<and>
              flag_reason row \<in> {''Message too short'', ''Message in all caps'',
                                  ''Excessive punctuation'', ''''})"
proof -
  let ?out = "map (\<lambda>(l, row). (l, with_flag row
                  (fst (flag_message (py_str (message row))))
                  (snd (flag_message (py_str (message row)))))) df"
  have r: "(fst (flag_message m) \<longleftrightarrow> snd (flag_message m) \<noteq> '''') \<and>
        snd (flag_message m) \<in> {''Message too short'', ''Message in all caps'',
                                  ''Excessive punctuation'', ''''}" for m
    by (simp add: flag_message_def)
  have 1: "flag_tickets df = Inr ?out"
    by (rule flag_tickets_rows[OF assms])
  have 2: "length ?out = length df" by simp
  have 3: "\<forall>(l, row) \<in> set ?out.
              (is_flagged row \<longleftrightarrow> flag_reason row \<noteq> '''') \<and>
              flag_reason row \<in> {''Message too short'', ''Message in all caps'',
                                  ''Excessive punctuation'', ''''}"
  proof (rule ballI)
    fix x assume "x \<in> set ?out"
    then obtain l row where x: "x = (l, with_flag row
                  (fst (flag_message (py_str (message row))))
                  (snd (flag_message (py_str (message row)))))"
      by auto
    show "case x of (l, row) \<Rightarrow>
              (is_flagged row \<longleftrightarrow> flag_reason row \<noteq> '''') \<and>
              flag_reason row \<in> {''Message too short'', ''Message in all caps'',
                                  ''Excessive punctuation'', ''''}"
      unfolding x using r[of "py_str (message row)"] by (simp add: with_flag_def)
  qed
  from 1 2 3 show ?thesis by blast
qed

theorem flag_reason_iff_flagged_witness:
  "range_indexed scenario_classified \<and>
   (\<exists>out. flag_tickets scenario_classified = Inr out \<and>
      length out = length scenario_classified \<and>
      (is_flagged (snd (out ! 0)) \<longleftrightarrow> flag_reason (snd (out ! 0)) \<noteq> '''') \<and>
      flag_reason (snd (out ! 0)) \<in> {''Message too short'', ''Message in all caps'',
                                        ''Excessive punctuation'', ''''})"
proof -
  have k: "0 < length scenario_classified" by (simp add: length_scenario_classified)
  from flag_reason_iff_flagged[OF range_indexed_scenario_classified]
  obtain out where o: "flag_tickets scenario_classified = Inr out"
    "length out = length scenario_classified"
    "\<forall>(l, row) \<in> set out.
         (is_flagged row \<longleftrightarrow> flag_reason row \<noteq> '''') \<and>
         flag_reason row \<in> {''Message too short'', ''Message in all caps'',
                             ''Excessive punctuation'', ''''}"
    by blast
  from k o(2) have "out ! 0 \<in> set out" by simp
  with o(3) have "(is_flagged (snd (out ! 0)) \<longleftrightarrow> flag_reason (snd (out ! 0)) \<noteq> '''') \<and>
      flag_reason (snd (out ! 0)) \<in> {''Message too short'', ''Message in all caps'',
                                        ''Excessive punctuation'', ''''}"
    by (cases "out ! 0") auto
  with o(1,2) range_indexed_scenario_classified show ?thesis by blast
qed





text \<open>
  C10. Two runs, each on its own frame and with its own iteration order of the keyword
  sets, both return, and two rows with the same subject and message get the same issue
  type, two rows with the same message the same flag and reason, wherever the rows
  stand and whatever the other rows hold. The two runs may be the same run.
\<close>

theorem classification_and_flags_row_local:
  assumes "iteration_order ko1" and "iteration_order ko2"
    and "range_indexed df1" and "text_frame df1"
    and "range_indexed df2" and "text_frame df2"
  shows "\<exists>c1 f1 c2 f2.
           classify_issues ko1 df1 = Inr c1 \<and> flag_tickets c1 = Inr f1 \<and>
           classify_issues ko2 df2 = Inr c2 \<and> flag_tickets c2 = Inr f2 \<and>
           length f1 = length df1 \<and> length f2 = length df2 \<and>
           (\<forall>j < length df1. \<forall>k < length df2.
              (subject (snd (df1 ! j)) = subject (snd (df2 ! k)) \<and>
               message (snd (df1 ! j)) = message (snd (df2 ! k)) \<longrightarrow>
                 issue_type (snd (f1 ! j)) = issue_type (snd (f2 ! k))) \<and>
              (message (snd (df1 ! j)) = message (snd (df2 ! k)) \<longrightarrow>
                 is_flagged (snd (f1 ! j)) = is_flagged (snd (f2 ! k)) \<and>
                 flag_reason (snd (f1 ! j)) = flag_reason (snd (f2 ! k))))"
proof -
  from run_rows[OF assms(1,3,4)]
  obtain c1 f1 where 1: "classify_issues ko1 df1 = Inr c1" "flag_tickets c1 = Inr f1"
    "length f1 = length df1"
    and r1: "\<forall>j < length df1.
              fst (f1 ! j) = fst (df1 ! j) \<and>
              issue_type (snd (f1 ! j)) =
                spec_issue_type (py_str (subject (snd (df1 ! j))))
                  (py_str (message (snd (df1 ! j)))) \<and>
              is_flagged (snd (f1 ! j)) = fst (spec_flag (py_str (message (snd (df1 ! j))))) \<and>
              flag_reason (snd (f1 ! j)) = snd (spec_flag (py_str (message (snd (df1 ! j)))))"
    by blast
  from run_rows[OF assms(2,5,6)]
  obtain c2 f2 where 2: "classify_issues ko2 df2 = Inr c2" "flag_tickets c2 = Inr f2"
    "length f2 = length df2"
    and r2: "\<forall>j < length df2.
              fst (f2 ! j) = fst (df2 ! j) \<and>
              issue_type (snd (f2 ! j)) =
                spec_issue_type (py_str (subject (snd (df2 ! j))))
                  (py_str (message (snd (df2 ! j)))) \<and>
              is_flagged (snd (f2 ! j)) = fst (spec_flag (py_str (message (snd (df2 ! j))))) \<and>
              flag_reason (snd (f2 ! j)) = snd (spec_flag (py_str (message (snd (df2 ! j)))))"
    by blast
  have "\<forall>j < length df1. \<forall>k < length df2.
              (subject (snd (df1 ! j)) = subject (snd (df2 ! k)) \<and>
               message (snd (df1 ! j)) = message (snd (df2 ! k)) \<longrightarrow>
                 issue_type (snd (f1 ! j)) = issue_type (snd (f2 ! k))) \<and>
              (message (snd (df1 ! j)) = message (snd (df2 ! k)) \<longrightarrow>
                 is_flagged (snd (f1 ! j)) = is_flagged (snd (f2 ! k)) \<and>
                 flag_reason (snd (f1 ! j)) = flag_reason (snd (f2 ! k)))"
  proof (intro allI impI conjI)
    fix j k assume "j < length df1" and "k < length df2"
      and "subject (snd (df1 ! j)) = subject (snd (df2 ! k)) \<and>
           message (snd (df1 ! j)) = message (snd (df2 ! k))"
    with r1 r2 show "issue_type (snd (f1 ! j)) = issue_type (snd (f2 ! k))" by simp
  next
    fix j k assume "j < length df1" and "k < length df2"
      and "message (snd (df1 ! j)) = message (snd (df2 ! k))"
    with r1 r2 show "is_flagged (snd (f1 ! j)) = is_flagged (snd (f2 ! k))" by simp
  next
    fix j k assume "j < length df1" and "k < length df2"
      and "message (snd (df1 ! j)) = message (snd (df2 ! k))"
    with r1 r2 show "flag_reason (snd (f1 ! j)) = flag_reason (snd (f2 ! k))" by simp
  qed
  with 1 2 show ?thesis by blast
qed

theorem classification_and_flags_row_local_witness:
  "iteration_order written_order \<and> iteration_order reversed_order \<and>
   range_indexed casing_frame \<and> text_frame casing_frame \<and>
   range_indexed reordered_frame \<and> text_frame reordered_frame \<and>
   subject (snd (casing_frame ! 0)) = subject (snd (reordered_frame ! 6)) \<and>
   message (snd (casing_frame ! 0)) = message (snd (reordered_frame ! 6)) \<and>
   (\<exists>c1 f1 c2 f2.
      classify_issues written_order casing_frame = Inr c1 \<and> flag_tickets c1 = Inr f1 \<and>
      classify_issues reversed_order reordered_frame = Inr c2 \<and> flag_tickets c2 = Inr f2 \<and>
      length f1 = 7 \<and> length f2 = 7 \<and>
      issue_type (snd (f1 ! 0)) = issue_type (snd (f2 ! 6)) \<and>
      is_flagged (snd (f1 ! 0)) = is_flagged (snd (f2 ! 6)) \<and>
      flag_reason (snd (f1 ! 0)) = flag_reason (snd (f2 ! 6)))"
proof -
  have s: "subject (snd (casing_frame ! 0)) = subject (snd (reordered_frame ! 6))"
    by (simp only: casing_subject_0 reordered_subject_6)
  have m: "message (snd (casing_frame ! 0)) = message (snd (reordered_frame ! 6))"
    by (simp only: casing_message_0 reordered_message_6)
  from classification_and_flags_row_local[OF iteration_order_written iteration_order_reversed
      range_indexed_casing text_frame_casing range_indexed_reordered text_frame_reordered]
  obtain c1 f1 c2 f2 where o:
      "classify_issues written_order casing_frame = Inr c1" "flag_tickets c1 = Inr f1"
      "classify_issues reversed_order reordered_frame = Inr c2" "flag_tickets c2 = Inr f2"
      "length f1 = length casing_frame" "length f2 = length reordered_frame"
    and rows: "\<forall>j < length casing_frame. \<forall>k < length reordered_frame.
              (subject (snd (casing_frame ! j)) = subject (snd (reordered_frame ! k)) \<and>
               message (snd (casing_frame ! j)) = message (snd (reordered_frame ! k)) \<longrightarrow>
                 issue_type (snd (f1 ! j)) = issue_type (snd (f2 ! k))) \<and>
              (message (snd (casing_frame ! j)) = message (snd (reordered_frame ! k)) \<longrightarrow>
                 is_flagged (snd (f1 ! j)) = is_flagged (snd (f2 ! k)) \<and>
                 flag_reason (snd (f1 ! j)) = flag_reason (snd (f2 ! k)))"
    by blast
  have k0: "0 < length casing_frame" by (simp add: length_casing)
  have k6: "6 < length reordered_frame" by (simp add: length_reordered)
  from rows k0 k6 s m have r: "issue_type (snd (f1 ! 0)) = issue_type (snd (f2 ! 6)) \<and>
      is_flagged (snd (f1 ! 0)) = is_flagged (snd (f2 ! 6)) \<and>
      flag_reason (snd (f1 ! 0)) = flag_reason (snd (f2 ! 6))"
    by blast
  from o(5,6) length_casing length_reordered have l: "length f1 = 7" "length f2 = 7"
    by simp_all
  from o(1-4) l r s m iteration_order_written iteration_order_reversed range_indexed_casing
    text_frame_casing range_indexed_reordered text_frame_reordered
  show ?thesis by blast
qed

end
